theory Spec2Isabelle
  imports Main "HOL-Library.Multiset"
begin

section \<open>Python strings and integers\<close>

text \<open>
  The bot of \<^verbatim>\<open>school_bot.py\<close> works on Python \<^verbatim>\<open>str\<close> values. Here a string is a
  list of characters with code points 0..255. On that range the characters Python's
  \<^verbatim>\<open>str.strip()\<close> removes (those with \<^verbatim>\<open>str.isspace()\<close>) are U+0009..U+000D,
  U+001C..U+0020, U+0085 and U+00A0, and the only decimal digits are \<^verbatim>\<open>0\<close>..\<^verbatim>\<open>9\<close>.
\<close>

definition isspace :: "char \<Rightarrow> bool" where
  "isspace c =
     (let n = (of_char c :: nat)
      in (9 \<le> n \<and> n \<le> 13) \<or> (28 \<le> n \<and> n \<le> 32) \<or> n = 133 \<or> n = 160)"

definition lstrip :: "string \<Rightarrow> string" where
  "lstrip s = dropWhile isspace s"

definition rstrip :: "string \<Rightarrow> string" where
  "rstrip s = rev (dropWhile isspace (rev s))"

text \<open>\<^verbatim>\<open>s.strip()\<close>: leading and trailing whitespace removed.\<close>

definition strip :: "string \<Rightarrow> string" where
  "strip s = rstrip (lstrip s)"

text \<open>
  The builtin \<^verbatim>\<open>int(s)\<close> on a string, base 10. It skips whitespace at both ends (the
  C-locale blanks U+0009..U+000D and U+0020, and the non-ASCII blanks, which it first
  turns into spaces), reads an optional sign, and then wants digits, where one
  underscore may stand between two digits. Whatever else it finds is a
  \<^verbatim>\<open>ValueError\<close>, here \<open>None\<close>. The interpreter also refuses more than
  \<^verbatim>\<open>sys.get_int_max_str_digits()\<close> digits (when that limit is not 0 and the text has
  more than 640 digits) with a \<^verbatim>\<open>ValueError\<close>; the limit is the parameter \<open>maxd\<close>.
\<close>

definition isspace_int :: "char \<Rightarrow> bool" where
  "isspace_int c =
     (let n = (of_char c :: nat)
      in (9 \<le> n \<and> n \<le> 13) \<or> n = 32 \<or> n = 133 \<or> n = 160)"

definition isdigit :: "char \<Rightarrow> bool" where
  "isdigit c = (let n = (of_char c :: nat) in 48 \<le> n \<and> n \<le> 57)"

definition digit_val :: "char \<Rightarrow> nat" where
  "digit_val c = of_char c - 48"

fun digits_ok :: "string \<Rightarrow> bool" where
  "digits_ok [] = False"
| "digits_ok [c] = isdigit c"
| "digits_ok (c # d # rest) =
     (isdigit c \<and> (if d = CHR ''_'' then digits_ok rest else digits_ok (d # rest)))"

definition only_digits :: "string \<Rightarrow> string" where
  "only_digits s = filter (\<lambda>c. c \<noteq> CHR ''_'') s"

definition decimal_value :: "string \<Rightarrow> nat" where
  "decimal_value ds = foldl (\<lambda>acc c. 10 * acc + digit_val c) 0 ds"

definition too_many_digits :: "nat \<Rightarrow> string \<Rightarrow> bool" where
  "too_many_digits maxd ds = (640 < length ds \<and> 0 < maxd \<and> maxd < length ds)"

definition unsigned_int :: "nat \<Rightarrow> string \<Rightarrow> nat option" where
  "unsigned_int maxd body =
     (if digits_ok body \<and> \<not> too_many_digits maxd (only_digits body)
      then Some (decimal_value (only_digits body)) else None)"

definition py_int :: "nat \<Rightarrow> string \<Rightarrow> int option" where
  "py_int maxd s =
     (case rev (dropWhile isspace_int (rev (dropWhile isspace_int s))) of
        c # body \<Rightarrow>
          (if c = CHR ''-'' then map_option (\<lambda>n. - int n) (unsigned_int maxd body)
           else if c = CHR ''+'' then map_option int (unsigned_int maxd body)
           else map_option int (unsigned_int maxd (c # body)))
      | [] \<Rightarrow> None)"

text \<open>
  \<^verbatim>\<open>parse_age\<close> (lines 91-96): \<^verbatim>\<open>int(text.strip())\<close>, with the \<^verbatim>\<open>ValueError\<close>
  caught and turned into \<^verbatim>\<open>None\<close>, then the range check.
\<close>

definition parse_age :: "nat \<Rightarrow> string \<Rightarrow> int option" where
  "parse_age maxd text =
     (case py_int maxd (strip text) of
        None \<Rightarrow> None
      | Some age \<Rightarrow> if 1 \<le> age \<and> age \<le> 120 then Some age else None)"

text \<open>\<^verbatim>\<open>str(n)\<close> for an integer, as the f-strings of the export use it.\<close>

definition digit_char :: "nat \<Rightarrow> char" where
  "digit_char d = ''0123456789'' ! d"

function show_nat :: "nat \<Rightarrow> string" where
  "show_nat n = (if n < 10 then [digit_char n] else show_nat (n div 10) @ [digit_char (n mod 10)])"
  by pat_completeness auto
termination
  by (relation "measure id") auto

declare show_nat.simps [simp del]

definition show_int :: "int \<Rightarrow> string" where
  "show_int i = (if i < 0 then CHR ''-'' # show_nat (nat (- i)) else show_nat (nat i))"


section \<open>The dialogue state kept by the FSM storage\<close>

text \<open>
  \<^verbatim>\<open>StudentForm\<close> (lines 30-33) has the three states of the dialogue; no state at all
  is Python's \<^verbatim>\<open>None\<close>. The \<^verbatim>\<open>MemoryStorage\<close> of line 205 keeps, for every key, a state
  and a dictionary of collected values; a key never written has no state and an empty
  dictionary. The key of a message is its sender (in a private chat the chat and the
  user coincide). The values the handlers put into the dictionary are strings and
  integers.
\<close>

datatype StudentForm = StudentForm_name | StudentForm_age | StudentForm_grade

datatype pyval = PyStr string | PyInt int

record fsm_record =
  fsm_state :: "StudentForm option"
  fsm_data :: "string \<rightharpoonup> pyval"

type_synonym user_id = int

type_synonym memory_storage = "user_id \<Rightarrow> fsm_record"

definition no_session :: fsm_record where
  "no_session = \<lparr>fsm_state = None, fsm_data = Map.empty\<rparr>"

text \<open>The operations of \<^verbatim>\<open>FSMContext\<close> the handlers call, for the key \<open>u\<close>.\<close>

definition ctx_clear :: "memory_storage \<Rightarrow> user_id \<Rightarrow> memory_storage" where
  "ctx_clear st u = st(u := no_session)"

definition ctx_set_state :: "memory_storage \<Rightarrow> user_id \<Rightarrow> StudentForm option \<Rightarrow> memory_storage" where
  "ctx_set_state st u s = st(u := (st u)\<lparr>fsm_state := s\<rparr>)"

definition ctx_update_data :: "memory_storage \<Rightarrow> user_id \<Rightarrow> string \<Rightarrow> pyval \<Rightarrow> memory_storage" where
  "ctx_update_data st u k v = st(u := (st u)\<lparr>fsm_data := (fsm_data (st u))(k \<mapsto> v)\<rparr>)"

definition ctx_get_data :: "memory_storage \<Rightarrow> user_id \<Rightarrow> (string \<rightharpoonup> pyval)" where
  "ctx_get_data st u = fsm_data (st u)"

section \<open>The table of students\<close>

text \<open>
  The table \<^verbatim>\<open>students\<close> of lines 41-48: rows \<^verbatim>\<open>(id, name, age, grade)\<close>, the id an
  \<^verbatim>\<open>AUTOINCREMENT\<close> primary key. SQLite gives a new row the id one above the largest
  id it has ever given in the table (kept in \<^verbatim>\<open>sqlite_sequence\<close>, here \<open>seq\<close>) and
  above every id in the table. Whether the database file can be opened and written is
  a matter of the machine the bot runs on: \<open>db_up\<close>. Every \<^verbatim>\<open>sqlite3.Error\<close> is the
  one value \<open>Sqlite_Error\<close>. The ids are integers without a bound: the table would
  have to give out 2^63 ids before SQLite's own bound is met.
\<close>

type_synonym student_row = "int \<times> string \<times> int \<times> string"

record database =
  db_up :: bool
  students :: "student_row list"
  seq :: int

datatype exn = Sqlite_Error | Overflow_Error | OS_Error | Attribute_Error

definition next_rowid :: "database \<Rightarrow> int" where
  "next_rowid d = fold max (map fst (students d)) (seq d) + 1"

text \<open>
  \<^verbatim>\<open>add_student\<close> (lines 54-65). An integer that does not fit SQLite's 64-bit
  \<^verbatim>\<open>INTEGER\<close> makes the binding of the parameters raise \<^verbatim>\<open>OverflowError\<close>.
\<close>

definition add_student :: "database \<Rightarrow> string \<Rightarrow> int \<Rightarrow> string \<Rightarrow> exn + (int \<times> database)" where
  "add_student d name age grade =
     (let name' = strip name; grade' = strip grade
      in if \<not> db_up d then Inl Sqlite_Error
         else if age < - (2 ^ 63) \<or> 2 ^ 63 \<le> age then Inl Overflow_Error
         else let rowid = next_rowid d
              in Inr (rowid, d\<lparr>students := students d @ [(rowid, name', age, grade')],
                                seq := rowid\<rparr>))"

definition order_by_id_asc :: "student_row list \<Rightarrow> student_row list" where
  "order_by_id_asc rs = sort_key fst rs"

definition order_by_id_desc :: "student_row list \<Rightarrow> student_row list" where
  "order_by_id_desc rs = rev (sort_key fst rs)"

text \<open>SQL's \<^verbatim>\<open>LIMIT n\<close>: a negative \<open>n\<close> is no limit.\<close>

definition sql_limit :: "int \<Rightarrow> 'a list \<Rightarrow> 'a list" where
  "sql_limit n rs = (if n < 0 then rs else take (nat n) rs)"

text \<open>
  \<^verbatim>\<open>list_students\<close> (lines 67-75). The limit is bound to the \<^verbatim>\<open>?\<close> of the statement,
  and as in \<^verbatim>\<open>add_student\<close> an integer that does not fit 64 bits makes the binding raise
  \<^verbatim>\<open>OverflowError\<close>.
\<close>

definition list_students :: "database \<Rightarrow> int \<Rightarrow> exn + student_row list" where
  "list_students d limit =
     (if \<not> db_up d then Inl Sqlite_Error
      else if limit < - (2 ^ 63) \<or> 2 ^ 63 \<le> limit then Inl Overflow_Error
      else Inr (sql_limit limit (order_by_id_desc (students d))))"

section \<open>The export to a file\<close>

text \<open>
  A file system with directories and text files, as far as lines 26-27 and 77-88 touch
  it. \<^verbatim>\<open>EXPORTS_DIR.mkdir(exist_ok=True)\<close> runs when the module is loaded; it fails
  when a file of that name is in the way.
\<close>

record filesystem =
  dirs :: "string set"
  files :: "string \<rightharpoonup> string"

definition EXPORTS_DIR :: string where
  "EXPORTS_DIR = ''exports''"

definition make_exports_dir :: "filesystem \<Rightarrow> exn + filesystem" where
  "make_exports_dir f =
     (if files f EXPORTS_DIR \<noteq> None then Inl OS_Error
      else Inr (f\<lparr>dirs := insert EXPORTS_DIR (dirs f)\<rparr>))"

text \<open>
  \<^verbatim>\<open>datetime.now()\<close> as its six fields, and \<^verbatim>\<open>strftime('%Y%m%d_%H%M%S')\<close>, which pads
  each field with zeros to its width.
\<close>

record datetime =
  year :: nat
  month :: nat
  day :: nat
  hour :: nat
  minute :: nat
  second :: nat

definition zfill :: "nat \<Rightarrow> string \<Rightarrow> string" where
  "zfill w s = replicate (w - length s) (CHR ''0'') @ s"

definition strftime :: "datetime \<Rightarrow> string" where
  "strftime t =
     zfill 4 (show_nat (year t)) @ zfill 2 (show_nat (month t)) @ zfill 2 (show_nat (day t))
     @ ''_'' @ zfill 2 (show_nat (hour t)) @ zfill 2 (show_nat (minute t))
     @ zfill 2 (show_nat (second t))"

definition newline :: char where
  "newline = CHR 0x0A"

definition csv_header :: string where
  "csv_header = ''id,name,age,grade'' @ [newline]"

definition csv_row :: "student_row \<Rightarrow> string" where
  "csv_row r =
     (case r of (rid, name, age, grade) \<Rightarrow>
        show_int rid @ '','' @ name @ '','' @ show_int age @ '','' @ grade @ [newline])"

text \<open>The loop of lines 85-87 over the rows, appending to what the file holds so far.\<close>

fun write_rows :: "string \<Rightarrow> student_row list \<Rightarrow> string" where
  "write_rows buf [] = buf"
| "write_rows buf (r # rs) = write_rows (buf @ csv_row r) rs"

text \<open>
  \<^verbatim>\<open>export_students_csv\<close> (lines 77-88): the database is opened first, then the file
  (which needs its directory, and a name that is not a directory's). The text is kept
  as Python hands it to the file: a line feed is the one character \<open>newline\<close>.
\<close>

definition export_filename :: "datetime \<Rightarrow> string" where
  "export_filename now = EXPORTS_DIR @ ''/'' @ ''students_'' @ strftime now @ ''.csv''"

definition export_students_csv :: "datetime \<Rightarrow> database \<Rightarrow> filesystem \<Rightarrow> exn + (string \<times> filesystem)" where
  "export_students_csv now d f =
     (let filename = export_filename now
      in if \<not> db_up d then Inl Sqlite_Error
         else if EXPORTS_DIR \<notin> dirs f \<or> filename \<in> dirs f then Inl OS_Error
         else let rows = order_by_id_asc (students d)
              in Inr (filename, f\<lparr>files := (files f)(filename \<mapsto> write_rows csv_header rows)\<rparr>))"


section \<open>Messages, replies and the handlers\<close>

text \<open>
  A message carries its sender, its text (absent for a photo, say) and the command the
  \<^verbatim>\<open>Command\<close> filters of aiogram find in it, if any. What the bot sends back is one
  of the fixed texts of the source, named here by a constructor; the text of lines
  166-174 carries the id and the three fields it echoes, the listing its rows, a
  document its path.
\<close>

datatype command = Cmd_start | Cmd_help | Cmd_cancel | Cmd_students | Cmd_export_csv

record message =
  msg_sender :: user_id
  msg_text :: "string option"
  msg_command :: "command option"

datatype reply =
    Greeting
  | Help_text
  | Cancelled
  | Name_empty
  | Ask_age
  | Age_invalid
  | Ask_grade
  | Grade_empty
  | Data_invalid
  | Saved int string int string
  | Db_error
  | List_empty
  | Listing "student_row list"
  | Document string
  | Export_failed

text \<open>
  All a handler can touch: the FSM storage, the database, the file system, the clock,
  the interpreter's limit on the digits of an integer, the replies sent so far, and the
  exceptions that left a handler (the dispatcher logs them and goes on polling).
\<close>

record world =
  storage :: memory_storage
  db :: database
  fs :: filesystem
  clock :: datetime
  int_max_str_digits :: nat
  outbox :: "(user_id \<times> reply) list"
  escaped :: "exn list"

definition answer :: "world \<Rightarrow> message \<Rightarrow> reply \<Rightarrow> world" where
  "answer w m r = w\<lparr>outbox := outbox w @ [(msg_sender m, r)]\<rparr>"

definition raise_exn :: "world \<Rightarrow> exn \<Rightarrow> world" where
  "raise_exn w e = w\<lparr>escaped := escaped w @ [e]\<rparr>"

definition state_clear :: "world \<Rightarrow> message \<Rightarrow> world" where
  "state_clear w m = w\<lparr>storage := ctx_clear (storage w) (msg_sender m)\<rparr>"

definition state_set_state :: "world \<Rightarrow> message \<Rightarrow> StudentForm \<Rightarrow> world" where
  "state_set_state w m s = w\<lparr>storage := ctx_set_state (storage w) (msg_sender m) (Some s)\<rparr>"

definition state_update_data :: "world \<Rightarrow> message \<Rightarrow> string \<Rightarrow> pyval \<Rightarrow> world" where
  "state_update_data w m k v = w\<lparr>storage := ctx_update_data (storage w) (msg_sender m) k v\<rparr>"

text \<open>\<^verbatim>\<open>message.text or ""\<close>\<close>

definition text_or_empty :: "message \<Rightarrow> string" where
  "text_or_empty m = (case msg_text m of None \<Rightarrow> [] | Some t \<Rightarrow> t)"

text \<open>\<^verbatim>\<open>on_start\<close> (lines 101-110)\<close>

definition on_start :: "world \<Rightarrow> message \<Rightarrow> world" where
  "on_start w m = state_set_state (answer (state_clear w m) m Greeting) m StudentForm_name"

text \<open>\<^verbatim>\<open>on_help\<close> (lines 112-120)\<close>

definition on_help :: "world \<Rightarrow> message \<Rightarrow> world" where
  "on_help w m = answer w m Help_text"

text \<open>\<^verbatim>\<open>on_cancel\<close> (lines 122-125)\<close>

definition on_cancel :: "world \<Rightarrow> message \<Rightarrow> world" where
  "on_cancel w m = answer (state_clear w m) m Cancelled"

text \<open>\<^verbatim>\<open>on_name\<close> (lines 127-135)\<close>

definition on_name :: "world \<Rightarrow> message \<Rightarrow> world" where
  "on_name w m =
     (let name = strip (text_or_empty m)
      in if name = [] then answer w m Name_empty
         else state_set_state
                (answer (state_update_data w m ''name'' (PyStr name)) m Ask_age) m StudentForm_age)"

text \<open>\<^verbatim>\<open>on_age\<close> (lines 137-145)\<close>

definition on_age :: "world \<Rightarrow> message \<Rightarrow> world" where
  "on_age w m =
     (case parse_age (int_max_str_digits w) (text_or_empty m) of
        None \<Rightarrow> answer w m Age_invalid
      | Some age \<Rightarrow>
          state_set_state
            (answer (state_update_data w m ''age'' (PyInt age)) m Ask_grade) m StudentForm_grade)"

text \<open>
  \<^verbatim>\<open>on_grade\<close> (lines 147-179). \<^verbatim>\<open>data.get("name", "").strip()\<close> raises
  \<^verbatim>\<open>AttributeError\<close> on a value that is not a string, before the \<^verbatim>\<open>try\<close>; inside the
  \<^verbatim>\<open>try\<close> only a \<^verbatim>\<open>sqlite3.Error\<close> is caught, and the \<^verbatim>\<open>finally\<close> clears the state
  on every way out.
\<close>

definition on_grade :: "world \<Rightarrow> message \<Rightarrow> world" where
  "on_grade w m =
     (let grade = strip (text_or_empty m)
      in if grade = [] then answer w m Grade_empty
         else
           let data = ctx_get_data (storage w) (msg_sender m)
           in case (case data ''name'' of None \<Rightarrow> Some [] | Some (PyStr s) \<Rightarrow> Some (strip s)
                    | Some (PyInt i) \<Rightarrow> None) of
                None \<Rightarrow> raise_exn w Attribute_Error
              | Some name \<Rightarrow>
                  (case (if name = [] then None
                         else case data ''age'' of Some (PyInt a) \<Rightarrow> Some a | _ \<Rightarrow> None) of
                     None \<Rightarrow> state_clear (answer w m Data_invalid) m
                   | Some age \<Rightarrow>
                       (case add_student (db w) name age grade of
                          Inr (student_id, d') \<Rightarrow>
                            state_clear (answer (w\<lparr>db := d'\<rparr>) m (Saved student_id name age grade)) m
                        | Inl e \<Rightarrow>
                            if e = Sqlite_Error then state_clear (answer w m Db_error) m
                            else state_clear (raise_exn w e) m)))"

text \<open>\<^verbatim>\<open>on_students\<close> (lines 181-190); a \<^verbatim>\<open>sqlite3.Error\<close> is not caught here.\<close>

definition on_students :: "world \<Rightarrow> message \<Rightarrow> world" where
  "on_students w m =
     (case list_students (db w) 10 of
        Inl e \<Rightarrow> raise_exn w e
      | Inr rows \<Rightarrow> if rows = [] then answer w m List_empty else answer w m (Listing rows))"

text \<open>\<^verbatim>\<open>on_export_csv\<close> (lines 192-199)\<close>

definition on_export_csv :: "world \<Rightarrow> message \<Rightarrow> world" where
  "on_export_csv w m =
     (case export_students_csv (clock w) (db w) (fs w) of
        Inr (path, f') \<Rightarrow> answer (w\<lparr>fs := f'\<rparr>) m (Document path)
      | Inl e \<Rightarrow> answer w m Export_failed)"

text \<open>
  The router tries the handlers in the order of their registration and runs the first
  whose filter accepts the message: the three commands of lines 101-125, then the
  handlers of the three states (which take any message, a later command too), then the
  two commands of lines 181-199. A message that none accepts changes nothing.
\<close>

definition dispatch :: "world \<Rightarrow> message \<Rightarrow> world" where
  "dispatch w m =
     (if msg_command m = Some Cmd_start then on_start w m
      else if msg_command m = Some Cmd_help then on_help w m
      else if msg_command m = Some Cmd_cancel then on_cancel w m
      else if fsm_state (storage w (msg_sender m)) = Some StudentForm_name then on_name w m
      else if fsm_state (storage w (msg_sender m)) = Some StudentForm_age then on_age w m
      else if fsm_state (storage w (msg_sender m)) = Some StudentForm_grade then on_grade w m
      else if msg_command m = Some Cmd_students then on_students w m
      else if msg_command m = Some Cmd_export_csv then on_export_csv w m
      else w)"

text \<open>The messages of a run, handled one after the other.\<close>

fun run :: "world \<Rightarrow> message list \<Rightarrow> world" where
  "run w [] = w"
| "run w (m # ms) = run (dispatch w m) ms"

text \<open>The three events of the dialogue, as messages of the user \<open>u\<close>.\<close>

definition start_msg :: "user_id \<Rightarrow> message" where
  "start_msg u = \<lparr>msg_sender = u, msg_text = Some ''/start'', msg_command = Some Cmd_start\<rparr>"

definition cancel_msg :: "user_id \<Rightarrow> message" where
  "cancel_msg u = \<lparr>msg_sender = u, msg_text = Some ''/cancel'', msg_command = Some Cmd_cancel\<rparr>"

definition text_msg :: "user_id \<Rightarrow> string \<Rightarrow> message" where
  "text_msg u t = \<lparr>msg_sender = u, msg_text = Some t, msg_command = None\<rparr>"

text \<open>
  The bot as \<^verbatim>\<open>main\<close> (lines 202-209) starts it on a new machine: nobody in a dialogue,
  an empty table, the directory of the exports made.
\<close>

definition fresh_world :: world where
  "fresh_world =
     \<lparr>storage = (\<lambda>u. no_session),
      db = \<lparr>db_up = True, students = [], seq = 0\<rparr>,
      fs = \<lparr>dirs = {EXPORTS_DIR}, files = Map.empty\<rparr>,
      clock = \<lparr>year = 2024, month = 3, day = 9, hour = 7, minute = 5, second = 2\<rparr>,
      int_max_str_digits = 4300,
      outbox = [],
      escaped = []\<rparr>"


section \<open>Notions the properties are stated with\<close>

text \<open>
  A message that none of the three command handlers of lines 101-125 takes, so that the
  handler of the sender's state gets it.
\<close>

definition plain_message :: "message \<Rightarrow> bool" where
  "plain_message m =
     (msg_command m \<noteq> Some Cmd_start \<and> msg_command m \<noteq> Some Cmd_help
      \<and> msg_command m \<noteq> Some Cmd_cancel)"







text \<open>The records of the table without their ids.\<close>

definition records :: "world \<Rightarrow> (string \<times> int \<times> string) list" where
  "records w = map snd (students (db w))"

text \<open>
  What the handlers leave in a session: in the states after the first a name that is
  a string, not empty and stripped; in the last state also an age that is an
  integer between 1 and 120.
\<close>

definition name_collected :: "fsm_record \<Rightarrow> bool" where
  "name_collected r =
     (case fsm_data r ''name'' of Some (PyStr s) \<Rightarrow> s \<noteq> [] \<and> strip s = s | _ \<Rightarrow> False)"

definition age_collected :: "fsm_record \<Rightarrow> bool" where
  "age_collected r =
     (case fsm_data r ''age'' of Some (PyInt a) \<Rightarrow> 1 \<le> a \<and> a \<le> 120 | _ \<Rightarrow> False)"

definition session_ok :: "fsm_record \<Rightarrow> bool" where
  "session_ok r =
     (case fsm_state r of
        None \<Rightarrow> True
      | Some StudentForm_name \<Rightarrow> True
      | Some StudentForm_age \<Rightarrow> name_collected r
      | Some StudentForm_grade \<Rightarrow> name_collected r \<and> age_collected r)"

text \<open>
  The lines of a text file: what stands before each line feed, and what stands after
  the last one if that is not empty.
\<close>

fun lines_from :: "string \<Rightarrow> string \<Rightarrow> string list" where
  "lines_from cur [] = (if cur = [] then [] else [cur])"
| "lines_from cur (c # cs) =
     (if c = newline then cur # lines_from [] cs else lines_from (cur @ [c]) cs)"

definition file_lines :: "string \<Rightarrow> string list" where
  "file_lines s = lines_from [] s"

text \<open>The four values of a row joined by commas, nothing quoted and nothing escaped.\<close>

definition comma_joined :: "student_row \<Rightarrow> string" where
  "comma_joined r =
     show_int (fst r) @ '','' @ fst (snd r) @ '','' @ show_int (fst (snd (snd r))) @ '',''
     @ snd (snd (snd r))"

text \<open>The message of a user who asks for the export.\<close>

definition export_csv_msg :: "user_id \<Rightarrow> message" where
  "export_csv_msg u =
     \<lparr>msg_sender = u, msg_text = Some ''/export_csv'', msg_command = Some Cmd_export_csv\<rparr>"

text \<open>The values \<^verbatim>\<open>datetime.now()\<close> can have (the class keeps its fields in these ranges).\<close>

definition valid_datetime :: "datetime \<Rightarrow> bool" where
  "valid_datetime t =
     (1 \<le> year t \<and> year t \<le> 9999 \<and> 1 \<le> month t \<and> month t \<le> 12 \<and> 1 \<le> day t \<and> day t \<le> 31
      \<and> hour t \<le> 23 \<and> minute t \<le> 59 \<and> second t \<le> 59)"

text \<open>
  The calls of \<^verbatim>\<open>FSMContext\<close> that a handler makes, in the order of its lines, so that
  what a session holds can be followed call by call. \<^verbatim>\<open>on_name\<close> calls
  \<^verbatim>\<open>update_data\<close> (line 133) and \<^verbatim>\<open>set_state\<close> (line 135) once the name is accepted.
  \<^verbatim>\<open>on_grade\<close> calls \<^verbatim>\<open>get_data\<close> (line 154) once the grade is accepted, and
  \<^verbatim>\<open>clear\<close> either in line 161 or in the \<^verbatim>\<open>finally\<close> of line 179; when line
  155 raises it makes no further call.
\<close>

datatype fsm_call =
    Call_clear
  | Call_set_state StudentForm
  | Call_update_data string pyval
  | Call_get_data

definition apply_call :: "memory_storage \<Rightarrow> user_id \<Rightarrow> fsm_call \<Rightarrow> memory_storage" where
  "apply_call st u c =
     (case c of
        Call_clear \<Rightarrow> ctx_clear st u
      | Call_set_state s \<Rightarrow> ctx_set_state st u (Some s)
      | Call_update_data k v \<Rightarrow> ctx_update_data st u k v
      | Call_get_data \<Rightarrow> st)"

definition apply_calls :: "memory_storage \<Rightarrow> user_id \<Rightarrow> fsm_call list \<Rightarrow> memory_storage" where
  "apply_calls st u cs = foldl (\<lambda>s c. apply_call s u c) st cs"

text \<open>The session of \<open>u\<close> before the first call and after each call.\<close>

fun sessions_during :: "memory_storage \<Rightarrow> user_id \<Rightarrow> fsm_call list \<Rightarrow> fsm_record list" where
  "sessions_during st u [] = [st u]"
| "sessions_during st u (c # cs) = st u # sessions_during (apply_call st u c) u cs"

definition on_name_calls :: "world \<Rightarrow> message \<Rightarrow> fsm_call list" where
  "on_name_calls w m =
     (let name = strip (text_or_empty m)
      in if name = [] then []
         else [Call_update_data ''name'' (PyStr name), Call_set_state StudentForm_age])"

definition on_grade_calls :: "world \<Rightarrow> message \<Rightarrow> fsm_call list" where
  "on_grade_calls w m =
     (let grade = strip (text_or_empty m)
      in if grade = [] then []
         else
           let data = ctx_get_data (storage w) (msg_sender m)
           in Call_get_data #
              (case data ''name'' of
                 Some (PyInt i) \<Rightarrow> []
               | _ \<Rightarrow> [Call_clear]))"

lemmas ctx_defs = ctx_clear_def ctx_set_state_def ctx_update_data_def ctx_get_data_def

lemmas step_defs =
  answer_def raise_exn_def state_clear_def state_set_state_def state_update_data_def

lemmas handler_defs =
  on_start_def on_help_def on_cancel_def on_name_def on_age_def on_grade_def
  on_students_def on_export_csv_def

lemmas message_defs =
  start_msg_def cancel_msg_def text_msg_def export_csv_msg_def text_or_empty_def

section \<open>Stripping\<close>

text \<open>A stripped string is empty or has no whitespace at either end, so stripping it again changes nothing.\<close>

lemma trimmed_ends:
  fixes P :: "'a \<Rightarrow> bool" and s :: "'a list"
  defines "r \<equiv> rev (dropWhile P (rev (dropWhile P s)))"
  shows "r = [] \<or> (\<not> P (hd r) \<and> \<not> P (last r))"
proof (cases "r = []")
  case True
  then show ?thesis by simp
next
  case False
  define t where "t = dropWhile P s"
  have r: "r = rev (dropWhile P (rev t))" by (simp add: r_def t_def)
  from False r have tne: "t \<noteq> []" by auto
  then have nh: "\<not> P (hd t)" unfolding t_def by (metis hd_dropWhile)
  have split: "t = r @ rev (takeWhile P (rev t))"
    unfolding r by (metis rev_append rev_rev_ident takeWhile_dropWhile_id)
  with False have "hd t = hd r" by (metis hd_append2)
  with nh have a: "\<not> P (hd r)" by simp
  from False r have "dropWhile P (rev t) \<noteq> []" by simp
  then have "\<not> P (hd (dropWhile P (rev t)))" by (metis hd_dropWhile)
  moreover have "hd (dropWhile P (rev t)) = last r" using False r by (simp add: last_rev)
  ultimately have b: "\<not> P (last r)" by simp
  from a b show ?thesis by simp
qed

lemma strip_ends: "strip s = [] \<or> (\<not> isspace (hd (strip s)) \<and> \<not> isspace (last (strip s)))"
  unfolding strip_def rstrip_def lstrip_def by (rule trimmed_ends)

lemma strip_fixed:
  assumes "s = [] \<or> (\<not> isspace (hd s) \<and> \<not> isspace (last s))"
  shows "strip s = s"
proof (cases "s = []")
  case True
  then show ?thesis by (simp add: strip_def rstrip_def lstrip_def)
next
  case False
  with assms have h: "\<not> isspace (hd s)" and l: "\<not> isspace (last s)" by auto
  from False h have 1: "dropWhile isspace s = s" by (simp add: dropWhile_eq_self_iff)
  from False l have 2: "dropWhile isspace (rev s) = rev s"
    by (simp add: dropWhile_eq_self_iff hd_rev)
  show ?thesis by (simp add: strip_def rstrip_def lstrip_def 1 2)
qed

lemma strip_idem: "strip (strip s) = strip s"
  by (rule strip_fixed) (rule strip_ends)

lemma strip_Nil: "strip [] = []"
  by (simp add: strip_def rstrip_def lstrip_def)


section \<open>Decimal numerals\<close>

text \<open>What \<^verbatim>\<open>str\<close> prints for a number is a row of digits that \<^verbatim>\<open>int\<close> reads back.\<close>

lemma digit_char_digit: "d < 10 \<Longrightarrow> isdigit (digit_char d) \<and> digit_val (digit_char d) = d"
proof -
  assume "d < 10"
  then have "d \<in> {0,1,2,3,4,5,6,7,8,9}" by auto
  then show ?thesis by (auto simp: digit_char_def isdigit_def digit_val_def)
qed

lemma show_nat_digits: "show_nat n \<noteq> [] \<and> (\<forall>c \<in> set (show_nat n). isdigit c)"
proof (induction n rule: show_nat.induct)
  case (1 n)
  show ?case
  proof (cases "n < 10")
    case True
    then show ?thesis by (subst show_nat.simps, subst (2) show_nat.simps) (simp add: digit_char_digit)
  next
    case False
    with 1 have ih: "show_nat (n div 10) \<noteq> [] \<and> (\<forall>c \<in> set (show_nat (n div 10)). isdigit c)" by simp
    have "n mod 10 < 10" by simp
    then have "isdigit (digit_char (n mod 10))" using digit_char_digit by blast
    with ih False show ?thesis by (subst show_nat.simps, subst (2) show_nat.simps) auto
  qed
qed













section \<open>The age validator\<close>

lemmas parse_age_eval =
  parse_age_def py_int_def strip_def lstrip_def rstrip_def isspace_def isspace_int_def
  unsigned_int_def isdigit_def too_many_digits_def only_digits_def decimal_value_def digit_val_def
























section \<open>The whole dialogue\<close>

lemma parse_age_range: "parse_age maxd t = Some a \<Longrightarrow> 1 \<le> a \<and> a \<le> 120"
  by (auto simp: parse_age_def split: option.splits if_splits)

text \<open>
  C1: a user who sends start, then a name, an age and a grade that all pass their
  validation, while the database can be written, gets one new row: the id the table
  assigns, the stripped name, the integer read from the age text, the stripped grade.
  The last reply reports that id with the same three values, and the user's session
  is gone. Nothing else of the world changes.
\<close>

theorem full_dialogue_persists_inputs:
  assumes n: "strip n \<noteq> []" and a: "parse_age (int_max_str_digits w) t = Some a"
    and g: "strip g \<noteq> []" and up: "db_up (db w)"
  shows "run w [start_msg u, text_msg u n, text_msg u t, text_msg u g] =
     w\<lparr>storage := (storage w)(u := no_session),
       db := (db w)\<lparr>students := students (db w) @ [(next_rowid (db w), strip n, a, strip g)],
                    seq := next_rowid (db w)\<rparr>,
       outbox := outbox w @ [(u, Greeting), (u, Ask_age), (u, Ask_grade),
                             (u, Saved (next_rowid (db w)) (strip n) a (strip g))]\<rparr>"
  using assms parse_age_range [OF a]
  by (simp add: dispatch_def message_defs handler_defs step_defs ctx_defs
      no_session_def add_student_def strip_idem Let_def)

theorem full_dialogue_persists_inputs_witness:
  "strip '' Ann '' \<noteq> [] \<and> parse_age (int_max_str_digits fresh_world) ''10 '' = Some 10
   \<and> strip ''4B'' \<noteq> [] \<and> db_up (db fresh_world)
   \<and> students (db (run fresh_world
        [start_msg 7, text_msg 7 '' Ann '', text_msg 7 ''10 '', text_msg 7 ''4B''])) =
       [(1, ''Ann'', 10, ''4B'')]
   \<and> outbox (run fresh_world
        [start_msg 7, text_msg 7 '' Ann '', text_msg 7 ''10 '', text_msg 7 ''4B'']) =
       [(7, Greeting), (7, Ask_age), (7, Ask_grade), (7, Saved 1 ''Ann'' 10 ''4B'')]
   \<and> storage (run fresh_world
        [start_msg 7, text_msg 7 '' Ann '', text_msg 7 ''10 '', text_msg 7 ''4B'']) 7 = no_session"
proof -
  have n: "strip '' Ann '' \<noteq> []" and sn: "strip '' Ann '' = ''Ann''"
    by (simp_all add: strip_def lstrip_def rstrip_def isspace_def)
  have g: "strip ''4B'' \<noteq> []" and sg: "strip ''4B'' = ''4B''"
    by (simp_all add: strip_def lstrip_def rstrip_def isspace_def)
  have a: "parse_age (int_max_str_digits fresh_world) ''10 '' = Some 10"
    by (simp add: parse_age_eval)
  have up: "db_up (db fresh_world)" by (simp add: fresh_world_def)
  have nr: "next_rowid (db fresh_world) = 1" by (simp add: next_rowid_def fresh_world_def)
  show ?thesis
    using full_dialogue_persists_inputs [OF n a g up, of 7] n g a up
    by (simp add: sn sg nr) (simp add: fresh_world_def)
qed

section \<open>Input that fails validation\<close>

lemmas strip_eval = strip_def lstrip_def rstrip_def isspace_def

text \<open>
  C5: in each of the three states, a text that fails the validation of the field asked
  for gets the prompt again and changes nothing else: the storage of the sessions
  (state and collected values of every user), the table and the files are as before.
\<close>

theorem invalid_input_changes_nothing:
  assumes "plain_message m"
  shows "(fsm_state (storage w (msg_sender m)) = Some StudentForm_name
            \<and> strip (text_or_empty m) = []
          \<longrightarrow> dispatch w m = w\<lparr>outbox := outbox w @ [(msg_sender m, Name_empty)]\<rparr>)
       \<and> (fsm_state (storage w (msg_sender m)) = Some StudentForm_age
            \<and> parse_age (int_max_str_digits w) (text_or_empty m) = None
          \<longrightarrow> dispatch w m = w\<lparr>outbox := outbox w @ [(msg_sender m, Age_invalid)]\<rparr>)
       \<and> (fsm_state (storage w (msg_sender m)) = Some StudentForm_grade
            \<and> strip (text_or_empty m) = []
          \<longrightarrow> dispatch w m = w\<lparr>outbox := outbox w @ [(msg_sender m, Grade_empty)]\<rparr>)"
  using assms
  by (simp add: plain_message_def dispatch_def on_name_def on_age_def on_grade_def answer_def)

theorem invalid_input_changes_nothing_witness:
  "plain_message (text_msg 3 ''  '')
   \<and> fsm_state (storage (run fresh_world [start_msg 3]) 3) = Some StudentForm_name
   \<and> strip (text_or_empty (text_msg 3 ''  '')) = []
   \<and> dispatch (run fresh_world [start_msg 3]) (text_msg 3 ''  '') =
       (run fresh_world [start_msg 3])
         \<lparr>outbox := outbox (run fresh_world [start_msg 3]) @ [(3, Name_empty)]\<rparr>
   \<and> plain_message (text_msg 3 ''500'')
   \<and> fsm_state (storage (run fresh_world [start_msg 3, text_msg 3 ''Ann'']) 3) = Some StudentForm_age
   \<and> parse_age (int_max_str_digits (run fresh_world [start_msg 3, text_msg 3 ''Ann'']))
        (text_or_empty (text_msg 3 ''500'')) = None
   \<and> dispatch (run fresh_world [start_msg 3, text_msg 3 ''Ann'']) (text_msg 3 ''500'') =
       (run fresh_world [start_msg 3, text_msg 3 ''Ann''])
         \<lparr>outbox := outbox (run fresh_world [start_msg 3, text_msg 3 ''Ann'']) @ [(3, Age_invalid)]\<rparr>
   \<and> fsm_state (storage (run fresh_world [start_msg 3, text_msg 3 ''Ann'', text_msg 3 ''10'']) 3)
       = Some StudentForm_grade
   \<and> dispatch (run fresh_world [start_msg 3, text_msg 3 ''Ann'', text_msg 3 ''10'']) (text_msg 3 ''  '') =
       (run fresh_world [start_msg 3, text_msg 3 ''Ann'', text_msg 3 ''10''])
         \<lparr>outbox := outbox (run fresh_world [start_msg 3, text_msg 3 ''Ann'', text_msg 3 ''10''])
                     @ [(3, Grade_empty)]\<rparr>"
proof -
  have p1: "plain_message (text_msg 3 ''  '')" and p2: "plain_message (text_msg 3 ''500'')"
    by (simp_all add: plain_message_def text_msg_def)
  have s: "strip (text_or_empty (text_msg 3 ''  '')) = []"
    by (simp add: message_defs strip_eval)
  have ann: "strip ''Ann'' = ''Ann''" by (simp add: strip_eval)
  have w1: "fsm_state (storage (run fresh_world [start_msg 3]) 3) = Some StudentForm_name"
    by (simp add: dispatch_def message_defs handler_defs step_defs ctx_defs fresh_world_def)
  have w2: "fsm_state (storage (run fresh_world [start_msg 3, text_msg 3 ''Ann'']) 3) = Some StudentForm_age"
    by (simp add: dispatch_def message_defs handler_defs step_defs ctx_defs fresh_world_def ann)
  have a: "parse_age (int_max_str_digits (run fresh_world [start_msg 3, text_msg 3 ''Ann'']))
        (text_or_empty (text_msg 3 ''500'')) = None"
    by (simp add: message_defs parse_age_eval)
  have ten: "parse_age maxd ''10'' = Some 10" for maxd by (simp add: parse_age_eval)
  have w3: "fsm_state (storage (run fresh_world [start_msg 3, text_msg 3 ''Ann'', text_msg 3 ''10'']) 3)
       = Some StudentForm_grade"
    by (simp add: dispatch_def message_defs handler_defs step_defs ctx_defs fresh_world_def ann ten)
  show ?thesis
    using invalid_input_changes_nothing [OF p1, of "run fresh_world [start_msg 3]"]
      invalid_input_changes_nothing [OF p2, of "run fresh_world [start_msg 3, text_msg 3 ''Ann'']"]
      invalid_input_changes_nothing [OF p1, of "run fresh_world [start_msg 3, text_msg 3 ''Ann'', text_msg 3 ''10'']"]
      p1 p2 s w1 w2 w3 a
    by (simp add: text_msg_def)
qed

section \<open>Validation of name and grade\<close>

lemma ten_parses: "parse_age maxd ''10'' = Some 10"
  by (simp add: parse_age_eval)

text \<open>What the two handlers do to the storage is what their calls do, one after the other.\<close>

lemma on_name_storage_calls:
  "storage (on_name w m) = apply_calls (storage w) (msg_sender m) (on_name_calls w m)"
  by (simp add: on_name_def on_name_calls_def apply_calls_def apply_call_def step_defs ctx_defs
      Let_def)

lemma on_grade_storage_calls:
  "storage (on_grade w m) = apply_calls (storage w) (msg_sender m) (on_grade_calls w m)"
  by (auto simp: on_grade_def on_grade_calls_def apply_calls_def apply_call_def step_defs ctx_defs
      Let_def split: option.splits pyval.splits sum.splits)

lemma on_grade_never_writes: "Call_update_data k v \<notin> set (on_grade_calls w m)"
  by (auto simp: on_grade_calls_def Let_def split: option.splits pyval.splits)

lemma after_name_and_age:
  "run fresh_world [start_msg 1, text_msg 1 ''Ann'', text_msg 1 ''10''] =
     fresh_world
      \<lparr>storage := (storage fresh_world)(1 := \<lparr>fsm_state = Some StudentForm_grade,
           fsm_data = [''name'' \<mapsto> PyStr ''Ann'', ''age'' \<mapsto> PyInt 10]\<rparr>),
       outbox := [(1, Greeting), (1, Ask_age), (1, Ask_grade)]\<rparr>"
proof -
  have ann: "strip ''Ann'' = ''Ann''" by (simp add: strip_eval)
  show ?thesis
    by (simp add: dispatch_def message_defs handler_defs step_defs ctx_defs fresh_world_def
        ann ten_parses no_session_def)
qed

text \<open>
  The claim C3 as written also wants an accepted grade stored in the session. On an
  accepted grade the grade handler makes two calls on the session, \<^verbatim>\<open>get_data\<close> and
  \<^verbatim>\<open>clear\<close>, and none that writes: before them, between them and after them the
  session holds no grade, while the row that was added holds it.
\<close>

theorem accepted_grade_not_in_session_counterexample:
  "strip (text_or_empty (text_msg 1 ''4B'')) \<noteq> []
   \<and> on_grade_calls (run fresh_world [start_msg 1, text_msg 1 ''Ann'', text_msg 1 ''10''])
        (text_msg 1 ''4B'') = [Call_get_data, Call_clear]
   \<and> map (\<lambda>r. fsm_data r ''grade'')
        (sessions_during
           (storage (run fresh_world [start_msg 1, text_msg 1 ''Ann'', text_msg 1 ''10''])) 1
           (on_grade_calls (run fresh_world [start_msg 1, text_msg 1 ''Ann'', text_msg 1 ''10''])
              (text_msg 1 ''4B''))) = [None, None, None]
   \<and> storage (on_grade (run fresh_world [start_msg 1, text_msg 1 ''Ann'', text_msg 1 ''10''])
        (text_msg 1 ''4B'')) 1 = no_session
   \<and> records (dispatch (run fresh_world [start_msg 1, text_msg 1 ''Ann'', text_msg 1 ''10''])
        (text_msg 1 ''4B'')) = [(''Ann'', 10, ''4B'')]"
proof -
  let ?w = "run fresh_world [start_msg 1, text_msg 1 ''Ann'', text_msg 1 ''10'']"
  let ?m = "text_msg 1 ''4B''"
  have ann: "strip ''Ann'' = ''Ann''" and g: "strip ''4B'' = ''4B''" by (simp_all add: strip_eval)
  have a: "strip (text_or_empty ?m) \<noteq> []" by (simp add: message_defs g)
  have b: "on_grade_calls ?w ?m = [Call_get_data, Call_clear]"
    unfolding after_name_and_age
    by (simp add: on_grade_calls_def message_defs g ctx_defs Let_def)
  have c: "map (\<lambda>r. fsm_data r ''grade'') (sessions_during (storage ?w) 1 (on_grade_calls ?w ?m))
      = [None, None, None]"
    unfolding b unfolding after_name_and_age
    by (simp add: apply_call_def ctx_defs no_session_def fresh_world_def)
  have d: "storage (on_grade ?w ?m) 1 = no_session"
    unfolding after_name_and_age
    by (simp add: on_grade_def message_defs g ann step_defs ctx_defs add_student_def Let_def
        fresh_world_def)
  have e: "records (dispatch ?w ?m) = [(''Ann'', 10, ''4B'')]"
    unfolding after_name_and_age
    by (simp add: dispatch_def on_grade_def message_defs g ann step_defs ctx_defs add_student_def
        next_rowid_def records_def Let_def fresh_world_def)
  from a b c d e show ?thesis by blast
qed

text \<open>
  C3 (amended): the name handler and the grade handler refuse a text exactly when it is
  empty after stripping, and then only ask again, with no call on the session. An
  accepted name is stored, stripped, in the session by \<^verbatim>\<open>update_data\<close>, and the
  dialogue moves on to the age. An accepted grade is not put into the session: the
  grade handler makes no call that writes, and what it does to the storage is what
  \<^verbatim>\<open>get_data\<close> and \<^verbatim>\<open>clear\<close> do, so the session is removed (or, when the stored name
  is not a string, left as it is with an \<^verbatim>\<open>AttributeError\<close>). The handler does not
  ask for the grade again, and it hands the grade, stripped, to the insert: with a
  name and an age in the session and a database that can be written, the table gets
  exactly the row (new id, name, age, stripped grade), the reply echoes it, and nothing
  else changes.
\<close>

theorem name_and_grade_rejected_iff_blank:
  "(strip (text_or_empty m) = [] \<longrightarrow>
      on_name w m = w\<lparr>outbox := outbox w @ [(msg_sender m, Name_empty)]\<rparr>
      \<and> on_grade w m = w\<lparr>outbox := outbox w @ [(msg_sender m, Grade_empty)]\<rparr>
      \<and> on_name_calls w m = []
      \<and> on_grade_calls w m = [])
   \<and> (strip (text_or_empty m) \<noteq> [] \<longrightarrow>
      on_name w m =
        w\<lparr>storage := (storage w)(msg_sender m :=
              (storage w (msg_sender m))
                \<lparr>fsm_data := (fsm_data (storage w (msg_sender m)))
                               (''name'' \<mapsto> PyStr (strip (text_or_empty m))),
                 fsm_state := Some StudentForm_age\<rparr>),
          outbox := outbox w @ [(msg_sender m, Ask_age)]\<rparr>
      \<and> on_name_calls w m =
          [Call_update_data ''name'' (PyStr (strip (text_or_empty m))),
           Call_set_state StudentForm_age]
      \<and> storage (on_name w m) = apply_calls (storage w) (msg_sender m) (on_name_calls w m)
      \<and> outbox (on_grade w m) \<noteq> outbox w @ [(msg_sender m, Grade_empty)]
      \<and> (students (db (on_grade w m)) = students (db w)
          \<or> (\<exists>rowid name age. students (db (on_grade w m)) =
               students (db w) @ [(rowid, name, age, strip (text_or_empty m))]))
      \<and> (\<forall>k v. Call_update_data k v \<notin> set (on_grade_calls w m))
      \<and> storage (on_grade w m) = apply_calls (storage w) (msg_sender m) (on_grade_calls w m)
      \<and> (storage (on_grade w m) = (storage w)(msg_sender m := no_session)
          \<or> on_grade w m = w\<lparr>escaped := escaped w @ [Attribute_Error]\<rparr>)
      \<and> (\<forall>s a. fsm_data (storage w (msg_sender m)) ''name'' = Some (PyStr s) \<and> strip s \<noteq> []
                \<and> fsm_data (storage w (msg_sender m)) ''age'' = Some (PyInt a)
                \<and> db_up (db w) \<and> - (2 ^ 63) \<le> a \<and> a < 2 ^ 63
            \<longrightarrow> on_grade w m =
                  w\<lparr>storage := (storage w)(msg_sender m := no_session),
                    db := (db w)\<lparr>students := students (db w)
                              @ [(next_rowid (db w), strip s, a, strip (text_or_empty m))],
                            seq := next_rowid (db w)\<rparr>,
                    outbox := outbox w
                      @ [(msg_sender m,
                          Saved (next_rowid (db w)) (strip s) a (strip (text_or_empty m)))]\<rparr>))"
proof -
  have blank_name: "strip (text_or_empty m) = [] \<Longrightarrow>
      on_name w m = w\<lparr>outbox := outbox w @ [(msg_sender m, Name_empty)]\<rparr>"
    by (simp add: on_name_def answer_def)
  have blank_grade: "strip (text_or_empty m) = [] \<Longrightarrow>
      on_grade w m = w\<lparr>outbox := outbox w @ [(msg_sender m, Grade_empty)]\<rparr>"
    by (simp add: on_grade_def answer_def)
  have blank_calls: "strip (text_or_empty m) = [] \<Longrightarrow>
      on_name_calls w m = [] \<and> on_grade_calls w m = []"
    by (simp add: on_name_calls_def on_grade_calls_def)
  have name_stored: "strip (text_or_empty m) \<noteq> [] \<Longrightarrow>
      on_name w m =
        w\<lparr>storage := (storage w)(msg_sender m :=
              (storage w (msg_sender m))
                \<lparr>fsm_data := (fsm_data (storage w (msg_sender m)))
                               (''name'' \<mapsto> PyStr (strip (text_or_empty m))),
                 fsm_state := Some StudentForm_age\<rparr>),
          outbox := outbox w @ [(msg_sender m, Ask_age)]\<rparr>"
    by (simp add: on_name_def step_defs ctx_defs Let_def)
  have name_calls: "strip (text_or_empty m) \<noteq> [] \<Longrightarrow>
      on_name_calls w m =
          [Call_update_data ''name'' (PyStr (strip (text_or_empty m))),
           Call_set_state StudentForm_age]"
    by (simp add: on_name_calls_def Let_def)
  have no_prompt: "strip (text_or_empty m) \<noteq> [] \<Longrightarrow>
      outbox (on_grade w m) \<noteq> outbox w @ [(msg_sender m, Grade_empty)]"
    by (auto simp: on_grade_def step_defs ctx_defs add_student_def Let_def
        split: option.splits pyval.splits)
  have handed_on: "strip (text_or_empty m) \<noteq> [] \<Longrightarrow>
      students (db (on_grade w m)) = students (db w)
      \<or> (\<exists>rowid name age. students (db (on_grade w m)) =
               students (db w) @ [(rowid, name, age, strip (text_or_empty m))])"
    by (auto simp: on_grade_def step_defs ctx_defs add_student_def strip_idem Let_def
        split: option.splits pyval.splits)
  have removed: "strip (text_or_empty m) \<noteq> [] \<Longrightarrow>
      storage (on_grade w m) = (storage w)(msg_sender m := no_session)
      \<or> on_grade w m = w\<lparr>escaped := escaped w @ [Attribute_Error]\<rparr>"
    by (auto simp: on_grade_def step_defs ctx_defs Let_def
        split: option.splits pyval.splits sum.splits)
  have inserted: "on_grade w m =
        w\<lparr>storage := (storage w)(msg_sender m := no_session),
          db := (db w)\<lparr>students := students (db w)
                    @ [(next_rowid (db w), strip s, a, strip (text_or_empty m))],
                  seq := next_rowid (db w)\<rparr>,
          outbox := outbox w
            @ [(msg_sender m, Saved (next_rowid (db w)) (strip s) a (strip (text_or_empty m)))]\<rparr>"
    if "strip (text_or_empty m) \<noteq> []"
      and "fsm_data (storage w (msg_sender m)) ''name'' = Some (PyStr s) \<and> strip s \<noteq> []
           \<and> fsm_data (storage w (msg_sender m)) ''age'' = Some (PyInt a)
           \<and> db_up (db w) \<and> - (2 ^ 63) \<le> a \<and> a < 2 ^ 63" for s a
    using that
    by (simp add: on_grade_def step_defs ctx_defs add_student_def strip_idem Let_def)
  from blank_name blank_grade blank_calls name_stored name_calls no_prompt handed_on removed
    inserted on_grade_never_writes [of _ _ w m] on_name_storage_calls [of w m]
    on_grade_storage_calls [of w m]
  show ?thesis by blast
qed

theorem name_and_grade_rejected_iff_blank_witness:
  "strip (text_or_empty (text_msg 1 ''   '')) = []
   \<and> on_name fresh_world (text_msg 1 ''   '') = fresh_world\<lparr>outbox := [(1, Name_empty)]\<rparr>
   \<and> on_grade fresh_world (text_msg 1 ''   '') = fresh_world\<lparr>outbox := [(1, Grade_empty)]\<rparr>
   \<and> strip (text_or_empty (text_msg 1 '' 4B '')) \<noteq> []
   \<and> fsm_data (storage (on_name fresh_world (text_msg 1 '' 4B '')) 1) ''name'' = Some (PyStr ''4B'')
   \<and> outbox (on_grade fresh_world (text_msg 1 '' 4B '')) \<noteq> [(1, Grade_empty)]
   \<and> on_grade (run fresh_world [start_msg 1, text_msg 1 ''Ann'', text_msg 1 ''10''])
        (text_msg 1 '' 4B '') =
       fresh_world
        \<lparr>db := \<lparr>db_up = True, students = [(1, ''Ann'', 10, ''4B'')], seq = 1\<rparr>,
         outbox := [(1, Greeting), (1, Ask_age), (1, Ask_grade), (1, Saved 1 ''Ann'' 10 ''4B'')]\<rparr>"
proof -
  let ?w = "run fresh_world [start_msg 1, text_msg 1 ''Ann'', text_msg 1 ''10'']"
  let ?m = "text_msg 1 '' 4B ''"
  have b: "strip (text_or_empty (text_msg 1 ''   '')) = []" by (simp add: message_defs strip_eval)
  have g: "strip (text_or_empty ?m) = ''4B''" by (simp add: message_defs strip_eval)
  have o: "outbox fresh_world = []" by (simp add: fresh_world_def)
  have ann: "strip ''Ann'' = ''Ann''" by (simp add: strip_eval)
  have first: "strip (text_or_empty (text_msg 1 ''   '')) = []
     \<and> on_name fresh_world (text_msg 1 ''   '') = fresh_world\<lparr>outbox := [(1, Name_empty)]\<rparr>
     \<and> on_grade fresh_world (text_msg 1 ''   '') = fresh_world\<lparr>outbox := [(1, Grade_empty)]\<rparr>
     \<and> strip (text_or_empty ?m) \<noteq> []
     \<and> fsm_data (storage (on_name fresh_world ?m) 1) ''name'' = Some (PyStr ''4B'')
     \<and> outbox (on_grade fresh_world ?m) \<noteq> [(1, Grade_empty)]"
    using name_and_grade_rejected_iff_blank [of "text_msg 1 ''   ''" fresh_world]
      name_and_grade_rejected_iff_blank [of ?m fresh_world] b g o
    by (simp add: text_msg_def)
  have pre: "fsm_data (storage ?w (msg_sender ?m)) ''name'' = Some (PyStr ''Ann'') \<and> strip ''Ann'' \<noteq> []
      \<and> fsm_data (storage ?w (msg_sender ?m)) ''age'' = Some (PyInt 10)
      \<and> db_up (db ?w) \<and> - (2 ^ 63) \<le> (10::int) \<and> (10::int) < 2 ^ 63"
    unfolding after_name_and_age by (simp add: text_msg_def ann fresh_world_def)
  have ne: "strip (text_or_empty ?m) \<noteq> []" unfolding g by simp
  from name_and_grade_rejected_iff_blank [of ?m ?w] ne pre
  have "on_grade ?w ?m =
        ?w\<lparr>storage := (storage ?w)(msg_sender ?m := no_session),
          db := (db ?w)\<lparr>students := students (db ?w)
                    @ [(next_rowid (db ?w), strip ''Ann'', 10, strip (text_or_empty ?m))],
                  seq := next_rowid (db ?w)\<rparr>,
          outbox := outbox ?w
            @ [(msg_sender ?m, Saved (next_rowid (db ?w)) (strip ''Ann'') 10 (strip (text_or_empty ?m)))]\<rparr>"
    by blast
  then have last: "on_grade ?w ?m =
       fresh_world
        \<lparr>db := \<lparr>db_up = True, students = [(1, ''Ann'', 10, ''4B'')], seq = 1\<rparr>,
         outbox := [(1, Greeting), (1, Ask_age), (1, Ask_grade), (1, Saved 1 ''Ann'' 10 ''4B'')]\<rparr>"
    unfolding g ann after_name_and_age
    by (simp add: text_msg_def fresh_world_def next_rowid_def no_session_def fun_upd_idem_iff)
  from first last show ?thesis by blast
qed

section \<open>A failing insert at the last step\<close>

text \<open>
  C4: the last step of a dialogue whose collected name and age are in order, with a
  grade that is accepted. However the insert ends, the sender's session is removed and
  no other session is touched. When the database cannot be written, the error does not
  leave the handler: the table is as before, the only reply is the storage-failure
  text, no exception is recorded. The insert is not tried again: the session is gone,
  so a later text of the same user reaches no handler and changes nothing.
\<close>

theorem storage_failure_is_caught_and_session_removed:
  assumes "plain_message m"
    and "fsm_state (storage w (msg_sender m)) = Some StudentForm_grade"
    and "strip (text_or_empty m) \<noteq> []"
    and "fsm_data (storage w (msg_sender m)) ''name'' = Some (PyStr s)"
    and "strip s \<noteq> []"
    and "fsm_data (storage w (msg_sender m)) ''age'' = Some (PyInt a)"
  shows "storage (dispatch w m) = (storage w)(msg_sender m := no_session)
     \<and> (\<not> db_up (db w) \<longrightarrow>
          dispatch w m = w\<lparr>storage := (storage w)(msg_sender m := no_session),
                           outbox := outbox w @ [(msg_sender m, Db_error)]\<rparr>)
     \<and> (\<forall>t. dispatch (dispatch w m) (text_msg (msg_sender m) t) = dispatch w m)"
proof -
  have d: "dispatch w m = on_grade w m"
    using assms(1,2) by (simp add: dispatch_def plain_message_def)
  have cleared: "storage (on_grade w m) = (storage w)(msg_sender m := no_session)"
    using assms(3-6)
    by (auto simp: on_grade_def step_defs ctx_defs Let_def split: sum.splits)
  have down: "\<not> db_up (db w) \<Longrightarrow>
      on_grade w m = w\<lparr>storage := (storage w)(msg_sender m := no_session),
                       outbox := outbox w @ [(msg_sender m, Db_error)]\<rparr>"
    using assms(3-6)
    by (simp add: on_grade_def step_defs ctx_defs add_student_def Let_def)
  have later: "dispatch (on_grade w m) (text_msg (msg_sender m) t) = on_grade w m" for t
    using cleared by (simp add: dispatch_def text_msg_def no_session_def)
  from cleared down later show ?thesis unfolding d by blast
qed

theorem storage_failure_is_caught_and_session_removed_witness:
  "plain_message (text_msg 1 ''4B'')
   \<and> fsm_state (storage (run fresh_world [start_msg 1, text_msg 1 ''Ann'', text_msg 1 ''10'']) 1)
       = Some StudentForm_grade
   \<and> \<not> db_up (db ((run fresh_world [start_msg 1, text_msg 1 ''Ann'', text_msg 1 ''10''])
                     \<lparr>db := \<lparr>db_up = False, students = [], seq = 0\<rparr>\<rparr>))
   \<and> dispatch ((run fresh_world [start_msg 1, text_msg 1 ''Ann'', text_msg 1 ''10''])
                  \<lparr>db := \<lparr>db_up = False, students = [], seq = 0\<rparr>\<rparr>) (text_msg 1 ''4B'') =
       fresh_world\<lparr>db := \<lparr>db_up = False, students = [], seq = 0\<rparr>,
                   outbox := [(1, Greeting), (1, Ask_age), (1, Ask_grade), (1, Db_error)]\<rparr>
   \<and> storage (dispatch (run fresh_world [start_msg 1, text_msg 1 ''Ann'', text_msg 1 ''10''])
        (text_msg 1 ''4B'')) 1 = no_session"
proof -
  let ?w = "run fresh_world [start_msg 1, text_msg 1 ''Ann'', text_msg 1 ''10'']"
  let ?d = "\<lparr>db_up = False, students = [], seq = 0\<rparr>"
  let ?m = "text_msg 1 ''4B''"
  have ann: "strip ''Ann'' = ''Ann''" and g: "strip ''4B'' = ''4B''" by (simp_all add: strip_eval)
  have ten: "parse_age maxd ''10'' = Some 10" for maxd by (simp add: parse_age_eval)
  have w: "?w = fresh_world
      \<lparr>storage := (storage fresh_world)(1 := \<lparr>fsm_state = Some StudentForm_grade,
           fsm_data = [''name'' \<mapsto> PyStr ''Ann'', ''age'' \<mapsto> PyInt 10]\<rparr>),
       outbox := [(1, Greeting), (1, Ask_age), (1, Ask_grade)]\<rparr>"
    by (simp add: dispatch_def message_defs handler_defs step_defs ctx_defs fresh_world_def
        ann ten no_session_def)
  have p: "plain_message ?m" by (simp add: plain_message_def text_msg_def)
  have gr: "strip (text_or_empty ?m) \<noteq> []" by (simp add: message_defs g)
  have sa: "strip ''Ann'' \<noteq> []" by (simp add: ann)
  have st: "fsm_state (storage ?w (msg_sender ?m)) = Some StudentForm_grade"
    unfolding w by (simp add: text_msg_def)
  have nm: "fsm_data (storage ?w (msg_sender ?m)) ''name'' = Some (PyStr ''Ann'')"
    unfolding w by (simp add: text_msg_def)
  have ag: "fsm_data (storage ?w (msg_sender ?m)) ''age'' = Some (PyInt 10)"
    unfolding w by (simp add: text_msg_def)
  have st': "fsm_state (storage (?w\<lparr>db := ?d\<rparr>) (msg_sender ?m)) = Some StudentForm_grade"
    using st by (simp del: run.simps)
  have nm': "fsm_data (storage (?w\<lparr>db := ?d\<rparr>) (msg_sender ?m)) ''name'' = Some (PyStr ''Ann'')"
    using nm by (simp del: run.simps)
  have ag': "fsm_data (storage (?w\<lparr>db := ?d\<rparr>) (msg_sender ?m)) ''age'' = Some (PyInt 10)"
    using ag by (simp del: run.simps)
  have down: "\<not> db_up (db (?w\<lparr>db := ?d\<rparr>))" by (simp del: run.simps)
  have fr: "(storage fresh_world)(1 := no_session) = storage fresh_world"
    by (simp add: fresh_world_def fun_eq_iff)
  have i1: "dispatch (?w\<lparr>db := ?d\<rparr>) ?m =
      (?w\<lparr>db := ?d\<rparr>)\<lparr>storage := (storage (?w\<lparr>db := ?d\<rparr>))(msg_sender ?m := no_session),
                      outbox := outbox (?w\<lparr>db := ?d\<rparr>) @ [(msg_sender ?m, Db_error)]\<rparr>"
    using storage_failure_is_caught_and_session_removed [OF p st' gr nm' sa ag'] down by blast
  have D: "dispatch (?w\<lparr>db := ?d\<rparr>) ?m =
       fresh_world\<lparr>db := ?d, outbox := [(1, Greeting), (1, Ask_age), (1, Ask_grade), (1, Db_error)]\<rparr>"
    unfolding i1 unfolding w by (simp add: text_msg_def fr)
  have i2: "storage (dispatch ?w ?m) = (storage ?w)(msg_sender ?m := no_session)"
    using storage_failure_is_caught_and_session_removed [OF p st gr nm sa ag] by blast
  have E: "storage (dispatch ?w ?m) 1 = no_session"
    unfolding i2 by (simp add: text_msg_def)
  have B: "fsm_state (storage ?w 1) = Some StudentForm_grade"
    using st by (simp add: text_msg_def del: run.simps)
  from p B down D E show ?thesis by blast
qed

section \<open>Cancel and start\<close>

lemma dispatch_start: "dispatch w (start_msg u) =
    w\<lparr>storage := (storage w)(u := \<lparr>fsm_state = Some StudentForm_name, fsm_data = Map.empty\<rparr>),
      outbox := outbox w @ [(u, Greeting)]\<rparr>"
  by (simp add: dispatch_def start_msg_def on_start_def step_defs ctx_defs no_session_def)

lemma dispatch_cancel: "dispatch w (cancel_msg u) =
    w\<lparr>storage := (storage w)(u := no_session), outbox := outbox w @ [(u, Cancelled)]\<rparr>"
  by (simp add: dispatch_def cancel_msg_def on_cancel_def step_defs ctx_defs)

text \<open>
  C8: in whatever state the user's session is, cancel removes it, and start (after a
  cancel or at any other time) leaves the user in the state that waits for the name
  with no collected value. What the session held before a start has no influence on
  anything that follows: two worlds that differ only in that session are the same world
  after the start, so every later reply and every row later written are the same.
\<close>

theorem cancel_and_start_forget_the_session:
  "storage (dispatch w (cancel_msg u)) u = no_session
   \<and> storage (dispatch w (start_msg u)) u =
       \<lparr>fsm_state = Some StudentForm_name, fsm_data = Map.empty\<rparr>
   \<and> storage (run w [cancel_msg u, start_msg u]) u =
       \<lparr>fsm_state = Some StudentForm_name, fsm_data = Map.empty\<rparr>
   \<and> run (w\<lparr>storage := (storage w)(u := r)\<rparr>) (start_msg u # ms) = run w (start_msg u # ms)"
  by (simp add: dispatch_start dispatch_cancel)

section \<open>The latest students\<close>

lemma ids_order_by_id_asc: "map fst (order_by_id_asc rs) = sort (map fst rs)"
proof -
  have "sort (map fst rs) = map fst (sort_key fst rs)"
    by (rule properties_for_sort) simp_all
  then show ?thesis by (simp add: order_by_id_asc_def)
qed

lemma mset_order_by_id_asc: "mset (order_by_id_asc rs) = mset rs"
  by (simp add: order_by_id_asc_def)

lemma order_by_id_desc_rev: "order_by_id_desc rs = rev (order_by_id_asc rs)"
  by (simp add: order_by_id_desc_def order_by_id_asc_def)

lemma descending_order_by_id_desc: "sorted_wrt (\<ge>) (map fst (order_by_id_desc rs))"
proof -
  have "sorted (map fst (order_by_id_asc rs))" by (simp add: ids_order_by_id_asc)
  then show ?thesis
    by (simp add: order_by_id_desc_rev rev_map [symmetric] sorted_wrt_rev del: rev_map)
qed

lemma descending_take: "sorted_wrt (\<ge>) (map fst (take n (order_by_id_desc rs)))"
proof -
  have "sorted_wrt (\<ge>) (take n (map fst (order_by_id_desc rs)))"
    using descending_order_by_id_desc [of rs] by (rule sorted_wrt_take)
  then show ?thesis by (simp add: take_map)
qed

lemma descending_distinct_strict:
  fixes xs :: "int list"
  shows "sorted_wrt (\<ge>) xs \<Longrightarrow> distinct xs \<Longrightarrow> sorted_wrt (>) xs"
  by (induction xs) (auto simp: less_le)

lemma strictly_descending_take:
  assumes "distinct (map fst rs)"
  shows "sorted_wrt (>) (map fst (take n (order_by_id_desc rs)))"
proof -
  have "distinct (map fst (order_by_id_desc rs))"
    using assms by (simp add: order_by_id_desc_rev rev_map [symmetric] ids_order_by_id_asc del: rev_map)
  then have d: "distinct (take n (map fst (order_by_id_desc rs)))" by (rule distinct_take)
  have s: "sorted_wrt (\<ge>) (take n (map fst (order_by_id_desc rs)))"
    using descending_order_by_id_desc [of rs] by (rule sorted_wrt_take)
  have "sorted_wrt (>) (take n (map fst (order_by_id_desc rs)))"
    using s d by (rule descending_distinct_strict)
  then show ?thesis by (simp add: take_map)
qed

lemma left_out_are_older:
  assumes "r \<in> set (take n (order_by_id_desc rs))" "q \<in> set (drop n (order_by_id_desc rs))"
  shows "fst q \<le> fst r"
proof -
  have "sorted_wrt (\<ge>) (map fst (take n (order_by_id_desc rs) @ drop n (order_by_id_desc rs)))"
    using descending_order_by_id_desc [of rs] by simp
  then have "\<forall>x \<in> set (map fst (take n (order_by_id_desc rs))).
             \<forall>y \<in> set (map fst (drop n (order_by_id_desc rs))). x \<ge> y"
    unfolding map_append sorted_wrt_append by blast
  with assms show ?thesis by auto
qed

lemma mset_take_drop_desc:
  "mset (take n (order_by_id_desc rs)) + mset (drop n (order_by_id_desc rs)) = mset rs"
proof -
  have "mset (take n (order_by_id_desc rs) @ drop n (order_by_id_desc rs)) = mset rs"
    by (simp add: order_by_id_desc_def)
  then show ?thesis by (simp only: mset_append)
qed

lemma ids_one_to_five:
  assumes "mset (map fst rs) = mset [1, 2, 3, 4, 5 :: int]"
  shows "map fst (take 3 (order_by_id_desc rs)) = [5, 4, 3]"
proof -
  have "sort (map fst rs) = [1, 2, 3, 4, 5]"
    by (rule properties_for_sort) (use assms in simp_all)
  then have "map fst (order_by_id_desc rs) = [5, 4, 3, 2, 1]"
    by (simp add: order_by_id_desc_rev rev_map [symmetric] ids_order_by_id_asc del: rev_map)
  then have "take 3 (map fst (order_by_id_desc rs)) = [5, 4, 3]" by simp
  then show ?thesis by (simp add: take_map)
qed

text \<open>
  C6 (amended): for a positive limit that fits SQLite's 64-bit integers (below 2^63)
  and any contents of the table, \<^verbatim>\<open>list_students\<close> (when the database can be read)
  returns at most \<open>limit\<close> rows, as many as the table has if it has fewer, in descending
  order of their ids (strictly, when the ids are distinct, as those of a primary key
  are). They are rows of the table, and every row left out has an id no larger than
  any row returned. On a table whose ids are 1 to 5 the limit 3 gives the rows with
  the ids 5, 4, 3 in this order. A limit from 2^63 on gives no rows but an
  \<^verbatim>\<open>OverflowError\<close>.
\<close>

theorem list_students_latest_first:
  assumes "0 < limit" and "db_up d"
  shows "(limit < 2 ^ 63 \<longrightarrow>
           (case list_students d limit of
              Inl e \<Rightarrow> False
            | Inr rows \<Rightarrow>
                length rows \<le> nat limit
                \<and> length rows = min (nat limit) (length (students d))
                \<and> sorted_wrt (\<ge>) (map fst rows)
                \<and> (distinct (map fst (students d)) \<longrightarrow> sorted_wrt (>) (map fst rows))
                \<and> mset rows \<subseteq># mset (students d)
                \<and> (\<forall>q \<in># mset (students d) - mset rows. \<forall>r \<in> set rows. fst q \<le> fst r)
                \<and> (mset (map fst (students d)) = mset [1, 2, 3, 4, 5] \<and> limit = 3
                     \<longrightarrow> map fst rows = [5, 4, 3])))
       \<and> (2 ^ 63 \<le> limit \<longrightarrow> list_students d limit = Inl Overflow_Error)"
proof (intro conjI impI)
  assume big: "2 ^ 63 \<le> limit"
  then show "list_students d limit = Inl Overflow_Error"
    using assms by (simp add: list_students_def)
next
  assume small: "limit < 2 ^ 63"
  let ?rows = "take (nat limit) (order_by_id_desc (students d))"
  let ?rest = "drop (nat limit) (order_by_id_desc (students d))"
  have res: "list_students d limit = Inr ?rows"
    using assms small by (simp add: list_students_def sql_limit_def)
  have len: "length ?rows = min (nat limit) (length (students d))"
    by (simp add: order_by_id_desc_def min.commute)
  have split: "mset ?rows + mset ?rest = mset (students d)" by (rule mset_take_drop_desc)
  then have sub: "mset ?rows \<subseteq># mset (students d)" by (metis mset_subset_eq_add_left)
  from split have rest: "mset (students d) - mset ?rows = mset ?rest"
    by (metis add_diff_cancel_left')
  have older: "\<forall>q \<in># mset (students d) - mset ?rows. \<forall>r \<in> set ?rows. fst q \<le> fst r"
    unfolding rest using left_out_are_older by auto
  have five: "mset (map fst (students d)) = mset [1, 2, 3, 4, 5] \<and> limit = 3
      \<longrightarrow> map fst ?rows = [5, 4, 3]"
    using ids_one_to_five [of "students d"] by auto
  show "case list_students d limit of
           Inl e \<Rightarrow> False
         | Inr rows \<Rightarrow>
             length rows \<le> nat limit
             \<and> length rows = min (nat limit) (length (students d))
             \<and> sorted_wrt (\<ge>) (map fst rows)
             \<and> (distinct (map fst (students d)) \<longrightarrow> sorted_wrt (>) (map fst rows))
             \<and> mset rows \<subseteq># mset (students d)
             \<and> (\<forall>q \<in># mset (students d) - mset rows. \<forall>r \<in> set rows. fst q \<le> fst r)
             \<and> (mset (map fst (students d)) = mset [1, 2, 3, 4, 5] \<and> limit = 3
                  \<longrightarrow> map fst rows = [5, 4, 3])"
    unfolding res using len descending_take [of "nat limit" "students d"]
      strictly_descending_take [of "students d" "nat limit"] sub older five
    by simp
qed


theorem list_students_latest_first_witness:
  "(0::int) < 3 \<and> (3::int) < 2 ^ 63
   \<and> db_up (db (run fresh_world
        [start_msg 1, text_msg 1 ''Ann'', text_msg 1 ''10'', text_msg 1 ''4B'',
         start_msg 2, text_msg 2 ''Bob'', text_msg 2 ''11'', text_msg 2 ''5A'',
         start_msg 1, text_msg 1 ''Cid'', text_msg 1 ''12'', text_msg 1 ''6'',
         start_msg 2, text_msg 2 ''Dan'', text_msg 2 ''13'', text_msg 2 ''7'',
         start_msg 1, text_msg 1 ''Eve'', text_msg 1 ''14'', text_msg 1 ''8'']))
   \<and> list_students (db (run fresh_world
        [start_msg 1, text_msg 1 ''Ann'', text_msg 1 ''10'', text_msg 1 ''4B'',
         start_msg 2, text_msg 2 ''Bob'', text_msg 2 ''11'', text_msg 2 ''5A'',
         start_msg 1, text_msg 1 ''Cid'', text_msg 1 ''12'', text_msg 1 ''6'',
         start_msg 2, text_msg 2 ''Dan'', text_msg 2 ''13'', text_msg 2 ''7'',
         start_msg 1, text_msg 1 ''Eve'', text_msg 1 ''14'', text_msg 1 ''8''])) 3 =
       Inr [(5, ''Eve'', 14, ''8''), (4, ''Dan'', 13, ''7''), (3, ''Cid'', 12, ''6'')]"
proof -
  let ?w = "run fresh_world
        [start_msg 1, text_msg 1 ''Ann'', text_msg 1 ''10'', text_msg 1 ''4B'',
         start_msg 2, text_msg 2 ''Bob'', text_msg 2 ''11'', text_msg 2 ''5A'',
         start_msg 1, text_msg 1 ''Cid'', text_msg 1 ''12'', text_msg 1 ''6'',
         start_msg 2, text_msg 2 ''Dan'', text_msg 2 ''13'', text_msg 2 ''7'',
         start_msg 1, text_msg 1 ''Eve'', text_msg 1 ''14'', text_msg 1 ''8'']"
  have s: "strip ''Ann'' = ''Ann''" "strip ''Bob'' = ''Bob''" "strip ''Cid'' = ''Cid''"
    "strip ''Dan'' = ''Dan''" "strip ''Eve'' = ''Eve''" "strip ''4B'' = ''4B''"
    "strip ''5A'' = ''5A''" "strip ''6'' = ''6''" "strip ''7'' = ''7''" "strip ''8'' = ''8''"
    by (simp_all add: strip_eval)
  have a: "parse_age maxd ''10'' = Some 10" "parse_age maxd ''11'' = Some 11"
    "parse_age maxd ''12'' = Some 12" "parse_age maxd ''13'' = Some 13"
    "parse_age maxd ''14'' = Some 14" for maxd
    by (simp_all add: parse_age_eval)
  have d: "db ?w = \<lparr>db_up = True,
      students = [(1, ''Ann'', 10, ''4B''), (2, ''Bob'', 11, ''5A''), (3, ''Cid'', 12, ''6''),
                  (4, ''Dan'', 13, ''7''), (5, ''Eve'', 14, ''8'')], seq = 5\<rparr>"
    by (simp add: dispatch_def message_defs handler_defs step_defs ctx_defs fresh_world_def
        s a add_student_def next_rowid_def no_session_def Let_def)
  have up: "db_up (db ?w)" unfolding d by simp
  have l: "(0::int) < 3" and l': "(3::int) < 2 ^ 63" by simp_all
  have "list_students (db ?w) 3 =
       Inr [(5, ''Eve'', 14, ''8''), (4, ''Dan'', 13, ''7''), (3, ''Cid'', 12, ''6'')]"
    using list_students_latest_first [OF l up] l'
    unfolding d by (simp add: list_students_def sql_limit_def order_by_id_desc_def)
  with l l' up show ?thesis by blast
qed

text \<open>
  The claim C6 as written speaks of every positive limit. The limit 2^63 is positive,
  and on a readable table with one row \<^verbatim>\<open>list_students\<close> returns no rows for it: the
  binding of the limit raises \<^verbatim>\<open>OverflowError\<close>.
\<close>

theorem list_students_limit_overflow_counterexample:
  "(0::int) < 2 ^ 63
   \<and> db (run fresh_world [start_msg 1, text_msg 1 ''Ann'', text_msg 1 ''10'', text_msg 1 ''4B''])
       = \<lparr>db_up = True, students = [(1, ''Ann'', 10, ''4B'')], seq = 1\<rparr>
   \<and> list_students
        (db (run fresh_world [start_msg 1, text_msg 1 ''Ann'', text_msg 1 ''10'', text_msg 1 ''4B'']))
        (2 ^ 63) = Inl Overflow_Error"
proof -
  let ?w = "run fresh_world [start_msg 1, text_msg 1 ''Ann'', text_msg 1 ''10'', text_msg 1 ''4B'']"
  have s: "strip ''Ann'' = ''Ann''" "strip ''4B'' = ''4B''" by (simp_all add: strip_eval)
  have d: "db ?w = \<lparr>db_up = True, students = [(1, ''Ann'', 10, ''4B'')], seq = 1\<rparr>"
    by (simp add: dispatch_def message_defs handler_defs step_defs ctx_defs fresh_world_def
        s ten_parses add_student_def next_rowid_def no_session_def Let_def)
  have o: "list_students (db ?w) (2 ^ 63) = Inl Overflow_Error"
    unfolding d by (simp add: list_students_def)
  have p: "(0::int) < 2 ^ 63" by simp
  from p d o show ?thesis by blast
qed

section \<open>The export\<close>

lemma write_rows_concat: "write_rows buf rs = buf @ concat (map csv_row rs)"
  by (induction rs arbitrary: buf) simp_all

lemma csv_row_joined: "csv_row r = comma_joined r @ [newline]"
  by (cases r) (simp add: csv_row_def comma_joined_def)

lemma lines_from_line:
  "newline \<notin> set l \<Longrightarrow> lines_from cur (l @ newline # rest) = (cur @ l) # lines_from [] rest"
  by (induction l arbitrary: cur) auto

lemma file_lines_rows:
  assumes "\<forall>l \<in> set ls. newline \<notin> set l"
  shows "lines_from [] (concat (map (\<lambda>l. l @ [newline]) ls)) = ls"
  using assms
proof (induction ls)
  case Nil
  then show ?case by simp
next
  case (Cons l ls)
  then have "newline \<notin> set l" by simp
  then have "lines_from [] (l @ newline # concat (map (\<lambda>l. l @ [newline]) ls)) =
      ([] @ l) # lines_from [] (concat (map (\<lambda>l. l @ [newline]) ls))"
    by (rule lines_from_line)
  with Cons show ?case by simp
qed

lemma isdigit_not_newline: "isdigit c \<Longrightarrow> c \<noteq> newline"
  by (auto simp: isdigit_def newline_def)

lemma show_int_no_newline: "newline \<notin> set (show_int i)"
  using show_nat_digits isdigit_not_newline
  by (auto simp: show_int_def newline_def)

lemma comma_joined_no_newline:
  assumes "newline \<notin> set (fst (snd r))" "newline \<notin> set (snd (snd (snd r)))"
  shows "newline \<notin> set (comma_joined r)"
  using assms show_int_no_newline by (auto simp: comma_joined_def newline_def)

lemma length_show_nat_2: "n < 100 \<Longrightarrow> length (show_nat n) \<le> 2"
  by (subst show_nat.simps, subst show_nat.simps) auto

lemma length_show_nat_4: "n < 10000 \<Longrightarrow> length (show_nat n) \<le> 4"
  by (subst show_nat.simps, subst show_nat.simps, subst show_nat.simps, subst show_nat.simps) auto

lemma zfill_digits:
  assumes "length (show_nat n) \<le> w"
  shows "length (zfill w (show_nat n)) = w \<and> (\<forall>c \<in> set (zfill w (show_nat n)). isdigit c)"
proof -
  have "isdigit (CHR ''0'')" by (simp add: isdigit_def)
  with assms show_nat_digits [of n] show ?thesis by (auto simp: zfill_def)
qed

lemma strftime_shape:
  assumes "valid_datetime t"
  shows "\<exists>ymd hms. strftime t = ymd @ ''_'' @ hms \<and> length ymd = 8 \<and> length hms = 6
           \<and> (\<forall>c \<in> set (ymd @ hms). isdigit c)"
proof -
  let ?y = "zfill 4 (show_nat (year t))" and ?mo = "zfill 2 (show_nat (month t))"
  let ?d = "zfill 2 (show_nat (day t))" and ?h = "zfill 2 (show_nat (hour t))"
  let ?mi = "zfill 2 (show_nat (minute t))" and ?s = "zfill 2 (show_nat (second t))"
  from assms have b: "year t < 10000" "month t < 100" "day t < 100" "hour t < 100"
    "minute t < 100" "second t < 100"
    by (simp_all add: valid_datetime_def)
  have y: "length ?y = 4 \<and> (\<forall>c \<in> set ?y. isdigit c)"
    using b(1) by (intro zfill_digits length_show_nat_4)
  have mo: "length ?mo = 2 \<and> (\<forall>c \<in> set ?mo. isdigit c)"
    using b(2) by (intro zfill_digits length_show_nat_2)
  have d: "length ?d = 2 \<and> (\<forall>c \<in> set ?d. isdigit c)"
    using b(3) by (intro zfill_digits length_show_nat_2)
  have h: "length ?h = 2 \<and> (\<forall>c \<in> set ?h. isdigit c)"
    using b(4) by (intro zfill_digits length_show_nat_2)
  have mi: "length ?mi = 2 \<and> (\<forall>c \<in> set ?mi. isdigit c)"
    using b(5) by (intro zfill_digits length_show_nat_2)
  have s: "length ?s = 2 \<and> (\<forall>c \<in> set ?s. isdigit c)"
    using b(6) by (intro zfill_digits length_show_nat_2)
  have "strftime t = (?y @ ?mo @ ?d) @ ''_'' @ (?h @ ?mi @ ?s)" by (simp add: strftime_def)
  moreover have "length (?y @ ?mo @ ?d) = 8" using y mo d by simp
  moreover have "length (?h @ ?mi @ ?s) = 6" using h mi s by simp
  moreover have "\<forall>c \<in> set ((?y @ ?mo @ ?d) @ (?h @ ?mi @ ?s)). isdigit c"
    using y mo d h mi s by auto
  ultimately show ?thesis by blast
qed


lemma export_content:
  "write_rows csv_header (order_by_id_asc rs) =
     csv_header @ concat (map (\<lambda>r. comma_joined r @ [newline]) (order_by_id_asc rs))"
proof -
  have "csv_row = (\<lambda>r. comma_joined r @ [newline])" by (rule ext) (rule csv_row_joined)
  then show ?thesis by (simp add: write_rows_concat)
qed

lemma export_lines:
  assumes "\<forall>r \<in> set rs. newline \<notin> set (fst (snd r)) \<and> newline \<notin> set (snd (snd (snd r)))"
  shows "file_lines (write_rows csv_header (order_by_id_asc rs)) =
     ''id,name,age,grade'' # map comma_joined (order_by_id_asc rs)"
proof -
  let ?ls = "''id,name,age,grade'' # map comma_joined (order_by_id_asc rs)"
  have set_eq: "set (order_by_id_asc rs) = set rs" by (simp add: order_by_id_asc_def)
  have h: "newline \<notin> set ''id,name,age,grade''" by (simp add: newline_def)
  have "\<forall>l \<in> set ?ls. newline \<notin> set l"
    using assms h comma_joined_no_newline by (auto simp: set_eq)
  then have A: "lines_from [] (concat (map (\<lambda>l. l @ [newline]) ?ls)) = ?ls"
    by (rule file_lines_rows)
  have eq: "write_rows csv_header (order_by_id_asc rs) = concat (map (\<lambda>l. l @ [newline]) ?ls)"
    unfolding export_content by (simp add: csv_header_def comp_def)
  show ?thesis unfolding file_lines_def eq by (rule A)
qed

text \<open>
  C7 (amended): when the database can be read and the directory of the exports is
  there, \<^verbatim>\<open>export_students_csv\<close> returns the path \<^verbatim>\<open>exports/students_<stamp>.csv\<close>,
  the stamp being eight digits, an underscore and six digits, and writes that file and
  no other. The file holds the header \<^verbatim>\<open>id,name,age,grade\<close> with its line feed and
  then, for every record in ascending order of the ids, the four values joined by
  commas (nothing quoted or escaped) with a line feed. When no name and no grade holds
  a line feed these are exactly the lines of the file: the header and one line for
  each record. Loading the module makes the directory when it is absent.
\<close>

theorem export_writes_header_and_rows:
  assumes "db_up d" and "EXPORTS_DIR \<in> dirs f" and "export_filename now \<notin> dirs f"
    and "valid_datetime now"
  shows "(case export_students_csv now d f of
           Inl e \<Rightarrow> False
         | Inr (path, f') \<Rightarrow>
             path = ''exports/students_'' @ strftime now @ ''.csv''
             \<and> (\<exists>ymd hms. strftime now = ymd @ ''_'' @ hms \<and> length ymd = 8 \<and> length hms = 6
                  \<and> (\<forall>c \<in> set (ymd @ hms). isdigit c))
             \<and> dirs f' = dirs f
             \<and> (\<forall>p. p \<noteq> path \<longrightarrow> files f' p = files f p)
             \<and> files f' path =
                 Some (''id,name,age,grade'' @ [newline]
                       @ concat (map (\<lambda>r. comma_joined r @ [newline]) (order_by_id_asc (students d))))
             \<and> sorted (map fst (order_by_id_asc (students d)))
             \<and> mset (order_by_id_asc (students d)) = mset (students d)
             \<and> ((\<forall>r \<in> set (students d).
                    newline \<notin> set (fst (snd r)) \<and> newline \<notin> set (snd (snd (snd r))))
                 \<longrightarrow> map_option file_lines (files f' path) =
                       Some (''id,name,age,grade'' # map comma_joined (order_by_id_asc (students d)))))
     \<and> (files f0 EXPORTS_DIR = None \<longrightarrow>
          make_exports_dir f0 = Inr (f0\<lparr>dirs := insert ''exports'' (dirs f0)\<rparr>))
     \<and> (''exports'' \<in> dirs f0 \<and> files f0 EXPORTS_DIR = None \<longrightarrow> make_exports_dir f0 = Inr f0)"
proof -
  let ?path = "export_filename now"
  let ?f' = "f\<lparr>files := (files f)(?path \<mapsto> write_rows csv_header (order_by_id_asc (students d)))\<rparr>"
  have res: "export_students_csv now d f = Inr (?path, ?f')"
    using assms(1-3) by (simp add: export_students_csv_def Let_def)
  have path: "?path = ''exports/students_'' @ strftime now @ ''.csv''"
    by (simp add: export_filename_def EXPORTS_DIR_def)
  have content: "files ?f' ?path =
      Some (''id,name,age,grade'' @ [newline]
            @ concat (map (\<lambda>r. comma_joined r @ [newline]) (order_by_id_asc (students d))))"
    using export_content [of "students d"] by (simp add: csv_header_def)
  have lines: "(\<forall>r \<in> set (students d).
        newline \<notin> set (fst (snd r)) \<and> newline \<notin> set (snd (snd (snd r))))
      \<longrightarrow> map_option file_lines (files ?f' ?path) =
            Some (''id,name,age,grade'' # map comma_joined (order_by_id_asc (students d)))"
    using export_lines [of "students d"] by simp
  have asc: "sorted (map fst (order_by_id_asc (students d)))" by (simp add: ids_order_by_id_asc)
  have others: "\<forall>p. p \<noteq> ?path \<longrightarrow> files ?f' p = files f p" by simp
  have mk: "files f0 EXPORTS_DIR = None \<longrightarrow>
      make_exports_dir f0 = Inr (f0\<lparr>dirs := insert ''exports'' (dirs f0)\<rparr>)"
    by (simp add: make_exports_dir_def EXPORTS_DIR_def)
  have mk2: "''exports'' \<in> dirs f0 \<and> files f0 EXPORTS_DIR = None \<longrightarrow> make_exports_dir f0 = Inr f0"
    by (auto simp: make_exports_dir_def EXPORTS_DIR_def insert_absorb)
  have first: "(case export_students_csv now d f of
           Inl e \<Rightarrow> False
         | Inr (path, f') \<Rightarrow>
             path = ''exports/students_'' @ strftime now @ ''.csv''
             \<and> (\<exists>ymd hms. strftime now = ymd @ ''_'' @ hms \<and> length ymd = 8 \<and> length hms = 6
                  \<and> (\<forall>c \<in> set (ymd @ hms). isdigit c))
             \<and> dirs f' = dirs f
             \<and> (\<forall>p. p \<noteq> path \<longrightarrow> files f' p = files f p)
             \<and> files f' path =
                 Some (''id,name,age,grade'' @ [newline]
                       @ concat (map (\<lambda>r. comma_joined r @ [newline]) (order_by_id_asc (students d))))
             \<and> sorted (map fst (order_by_id_asc (students d)))
             \<and> mset (order_by_id_asc (students d)) = mset (students d)
             \<and> ((\<forall>r \<in> set (students d).
                    newline \<notin> set (fst (snd r)) \<and> newline \<notin> set (snd (snd (snd r))))
                 \<longrightarrow> map_option file_lines (files f' path) =
                       Some (''id,name,age,grade'' # map comma_joined (order_by_id_asc (students d)))))"
    unfolding res
    using path strftime_shape [OF assms(4)] content lines asc others mset_order_by_id_asc [of "students d"]
    by (simp del: fun_upd_apply)
  from first mk mk2 show ?thesis by blast
qed

theorem export_writes_header_and_rows_witness:
  "db_up (db (run fresh_world
      [start_msg 1, text_msg 1 ''Ann'', text_msg 1 ''10'', text_msg 1 ''4B'',
       start_msg 2, text_msg 2 ''Bob'', text_msg 2 ''11'', text_msg 2 ''5A'']))
   \<and> EXPORTS_DIR \<in> dirs (fs fresh_world)
   \<and> export_filename (clock fresh_world) \<notin> dirs (fs fresh_world)
   \<and> valid_datetime (clock fresh_world)
   \<and> (case export_students_csv (clock fresh_world) (db (run fresh_world
          [start_msg 1, text_msg 1 ''Ann'', text_msg 1 ''10'', text_msg 1 ''4B'',
           start_msg 2, text_msg 2 ''Bob'', text_msg 2 ''11'', text_msg 2 ''5A''])) (fs fresh_world) of
         Inl e \<Rightarrow> False
       | Inr (path, f') \<Rightarrow>
           path = ''exports/students_20240309_070502.csv''
           \<and> map_option file_lines (files f' path) =
               Some [''id,name,age,grade'', ''1,Ann,10,4B'', ''2,Bob,11,5A''])
   \<and> files (fs fresh_world) EXPORTS_DIR = None
   \<and> make_exports_dir \<lparr>dirs = {}, files = Map.empty\<rparr> = Inr \<lparr>dirs = {''exports''}, files = Map.empty\<rparr>"
proof -
  let ?w = "run fresh_world
      [start_msg 1, text_msg 1 ''Ann'', text_msg 1 ''10'', text_msg 1 ''4B'',
       start_msg 2, text_msg 2 ''Bob'', text_msg 2 ''11'', text_msg 2 ''5A'']"
  have s: "strip ''Ann'' = ''Ann''" "strip ''Bob'' = ''Bob''" "strip ''4B'' = ''4B''"
    "strip ''5A'' = ''5A''"
    by (simp_all add: strip_eval)
  have a: "parse_age maxd ''10'' = Some 10" "parse_age maxd ''11'' = Some 11" for maxd
    by (simp_all add: parse_age_eval)
  have d: "db ?w = \<lparr>db_up = True,
      students = [(1, ''Ann'', 10, ''4B''), (2, ''Bob'', 11, ''5A'')], seq = 2\<rparr>"
    by (simp add: dispatch_def message_defs handler_defs step_defs ctx_defs fresh_world_def
        s a add_student_def next_rowid_def no_session_def Let_def)
  have t: "export_filename (clock fresh_world) = ''exports/students_20240309_070502.csv''"
    by (simp add: export_filename_def EXPORTS_DIR_def strftime_def zfill_def show_nat.simps
        digit_char_def fresh_world_def)
  have up: "db_up (db ?w)" unfolding d by simp
  have dir: "EXPORTS_DIR \<in> dirs (fs fresh_world)" by (simp add: fresh_world_def)
  have nd: "export_filename (clock fresh_world) \<notin> dirs (fs fresh_world)"
    unfolding t by (simp add: fresh_world_def EXPORTS_DIR_def)
  have vd: "valid_datetime (clock fresh_world)" by (simp add: fresh_world_def valid_datetime_def)
  have nf: "files (fs fresh_world) EXPORTS_DIR = None" by (simp add: fresh_world_def)
  have nl: "\<forall>r \<in> set (students (db ?w)).
      newline \<notin> set (fst (snd r)) \<and> newline \<notin> set (snd (snd (snd r)))"
    unfolding d by (simp add: newline_def)
  have o: "order_by_id_asc (students (db ?w)) = [(1, ''Ann'', 10, ''4B''), (2, ''Bob'', 11, ''5A'')]"
    unfolding d by (simp add: order_by_id_asc_def)
  have j: "map comma_joined [(1, ''Ann'', 10, ''4B''), (2, ''Bob'', 11, ''5A'')]
      = [''1,Ann,10,4B'', ''2,Bob,11,5A'']"
    by (simp add: comma_joined_def show_int_def show_nat.simps digit_char_def)
  have mk: "make_exports_dir \<lparr>dirs = {}, files = Map.empty\<rparr> = Inr \<lparr>dirs = {''exports''}, files = Map.empty\<rparr>"
    using export_writes_header_and_rows [OF up dir nd vd, of "\<lparr>dirs = {}, files = Map.empty\<rparr>"]
    by simp
  have ex: "case export_students_csv (clock fresh_world) (db ?w) (fs fresh_world) of
         Inl e \<Rightarrow> False
       | Inr (path, f') \<Rightarrow>
           path = ''exports/students_20240309_070502.csv''
           \<and> map_option file_lines (files f' path) =
               Some [''id,name,age,grade'', ''1,Ann,10,4B'', ''2,Bob,11,5A'']"
    using export_writes_header_and_rows [OF up dir nd vd, of "fs fresh_world"] nl
    unfolding o j
    by (auto simp: t [unfolded export_filename_def EXPORTS_DIR_def, simplified]
        simp del: run.simps split: sum.splits prod.splits)
  from up dir nd vd ex nf mk show ?thesis by blast
qed

text \<open>
  The claim C7 as written promises one line for every record, whatever the table
  holds. A name may hold a line feed (the name handler strips only the two ends), and
  the export writes it as it is: one record, and three lines in the file.
\<close>

theorem export_record_over_two_lines_counterexample:
  "students (db (run fresh_world
      [start_msg 1, text_msg 1 (''Ann'' @ [newline] @ ''Bob''), text_msg 1 ''10'', text_msg 1 ''4B'',
       export_csv_msg 1])) = [(1, ''Ann'' @ [newline] @ ''Bob'', 10, ''4B'')]
   \<and> map_option file_lines (files (fs (run fresh_world
      [start_msg 1, text_msg 1 (''Ann'' @ [newline] @ ''Bob''), text_msg 1 ''10'', text_msg 1 ''4B'',
       export_csv_msg 1])) ''exports/students_20240309_070502.csv'') =
     Some [''id,name,age,grade'', ''1,Ann'', ''Bob,10,4B'']"
proof -
  let ?n = "[CHR ''A'', CHR ''n'', CHR ''n'', newline, CHR ''B'', CHR ''o'', CHR ''b'']"
  let ?w = "run fresh_world [start_msg 1, text_msg 1 ?n, text_msg 1 ''10'', text_msg 1 ''4B'']"
  have nm: "''Ann'' @ [newline] @ ''Bob'' = ?n" by simp
  have n: "strip ?n = ?n" and g: "strip ''4B'' = ''4B''"
    by (simp_all add: strip_eval newline_def)
  have a: "parse_age maxd ''10'' = Some 10" for maxd by (simp add: parse_age_eval)
  have t: "export_filename \<lparr>year = 2024, month = 3, day = 9, hour = 7, minute = 5, second = 2\<rparr>
      = ''exports/students_20240309_070502.csv''"
    by (simp add: export_filename_def EXPORTS_DIR_def strftime_def zfill_def show_nat.simps
        digit_char_def)
  have c: "file_lines (write_rows csv_header [(1, ?n, 10, ''4B'')])
      = [''id,name,age,grade'', ''1,Ann'', ''Bob,10,4B'']"
    by (simp add: file_lines_def csv_header_def csv_row_def show_int_def show_nat.simps
        digit_char_def newline_def)
  have w: "?w = fresh_world
      \<lparr>db := \<lparr>db_up = True, students = [(1, ?n, 10, ''4B'')], seq = 1\<rparr>,
       outbox := [(1, Greeting), (1, Ask_age), (1, Ask_grade), (1, Saved 1 ?n 10 ''4B'')]\<rparr>"
    by (simp add: dispatch_def message_defs handler_defs step_defs ctx_defs fresh_world_def
        n g a add_student_def next_rowid_def no_session_def Let_def fun_upd_idem_iff)
  have e: "dispatch ?w (export_csv_msg 1) =
      ?w\<lparr>fs := (fs ?w)\<lparr>files := (files (fs ?w))(''exports/students_20240309_070502.csv'' \<mapsto>
               write_rows csv_header [(1, ?n, 10, ''4B'')])\<rparr>,
         outbox := outbox ?w @ [(1, Document ''exports/students_20240309_070502.csv'')]\<rparr>"
    unfolding w
    by (simp add: dispatch_def export_csv_msg_def on_export_csv_def answer_def fresh_world_def
        export_students_csv_def t order_by_id_asc_def Let_def no_session_def EXPORTS_DIR_def)
  have r: "run fresh_world
      [start_msg 1, text_msg 1 ?n, text_msg 1 ''10'', text_msg 1 ''4B'', export_csv_msg 1]
      = dispatch ?w (export_csv_msg 1)" by simp
  show ?thesis unfolding nm r e unfolding w by (simp add: c del: write_rows.simps)
qed

section \<open>Sessions along a run\<close>

lemma dispatch_other_session:
  assumes "u \<noteq> msg_sender m"
  shows "storage (dispatch w m) u = storage w u"
  using assms
  by (auto simp: dispatch_def handler_defs step_defs ctx_defs Let_def
      split: option.splits pyval.splits sum.splits)

lemma session_cases:
  obtains (c_start) "msg_command m = Some Cmd_start"
    | (c_help) "msg_command m = Some Cmd_help"
    | (c_cancel) "msg_command m = Some Cmd_cancel"
    | (c_name) "plain_message m" "fsm_state (storage w (msg_sender m)) = Some StudentForm_name"
    | (c_age) "plain_message m" "fsm_state (storage w (msg_sender m)) = Some StudentForm_age"
    | (c_grade) "plain_message m" "fsm_state (storage w (msg_sender m)) = Some StudentForm_grade"
    | (c_idle) "plain_message m" "fsm_state (storage w (msg_sender m)) = None"
proof (cases "fsm_state (storage w (msg_sender m))")
  case None
  then show ?thesis using that(1-3,7) by (auto simp: plain_message_def)
next
  case (Some s)
  then show ?thesis using that(1-6) by (cases s) (auto simp: plain_message_def)
qed

lemma dispatch_own_session:
  assumes "session_ok (storage w (msg_sender m))"
  shows "session_ok (storage (dispatch w m) (msg_sender m))"
proof (cases rule: session_cases [where m = m and w = w])
  case c_start
  then show ?thesis
    by (simp add: dispatch_def on_start_def step_defs ctx_defs session_ok_def no_session_def)
next
  case c_help
  then show ?thesis using assms
    by (simp add: dispatch_def on_help_def step_defs)
next
  case c_cancel
  then show ?thesis
    by (simp add: dispatch_def on_cancel_def step_defs ctx_defs session_ok_def no_session_def)
next
  case c_name
  have d: "dispatch w m = on_name w m"
    using c_name by (simp add: dispatch_def plain_message_def)
  show ?thesis
  proof (cases "strip (text_or_empty m) = []")
    case True
    then show ?thesis unfolding d using assms by (simp add: on_name_def step_defs)
  next
    case False
    then show ?thesis unfolding d
      by (simp add: on_name_def step_defs ctx_defs session_ok_def name_collected_def strip_idem Let_def)
  qed
next
  case c_age
  have d: "dispatch w m = on_age w m"
    using c_age by (simp add: dispatch_def plain_message_def)
  from assms c_age have nc: "name_collected (storage w (msg_sender m))"
    by (simp add: session_ok_def)
  show ?thesis
  proof (cases "parse_age (int_max_str_digits w) (text_or_empty m)")
    case None
    then show ?thesis unfolding d using assms by (simp add: on_age_def step_defs)
  next
    case (Some a)
    with parse_age_range have "1 \<le> a \<and> a \<le> 120" by blast
    with Some nc show ?thesis unfolding d
      by (simp add: on_age_def step_defs ctx_defs session_ok_def name_collected_def age_collected_def)
  qed
next
  case c_grade
  have d: "dispatch w m = on_grade w m"
    using c_grade by (simp add: dispatch_def plain_message_def)
  have "storage (on_grade w m) (msg_sender m) = storage w (msg_sender m)
      \<or> storage (on_grade w m) (msg_sender m) = no_session"
    by (auto simp: on_grade_def step_defs ctx_defs Let_def split: option.splits pyval.splits sum.splits)
  then show ?thesis unfolding d
  proof
    assume "storage (on_grade w m) (msg_sender m) = storage w (msg_sender m)"
    then show "session_ok (storage (on_grade w m) (msg_sender m))" using assms by simp
  next
    assume "storage (on_grade w m) (msg_sender m) = no_session"
    then show "session_ok (storage (on_grade w m) (msg_sender m))"
      by (simp add: session_ok_def no_session_def)
  qed
next
  case c_idle
  have "storage (dispatch w m) = storage w"
    using c_idle
    by (auto simp: dispatch_def plain_message_def on_students_def on_export_csv_def step_defs
        split: sum.splits)
  then show ?thesis using assms by simp
qed

lemma dispatch_keeps_sessions:
  assumes "\<forall>u. session_ok (storage w u)"
  shows "\<forall>u. session_ok (storage (dispatch w m) u)"
proof
  fix u
  show "session_ok (storage (dispatch w m) u)"
  proof (cases "u = msg_sender m")
    case True
    then show ?thesis using assms dispatch_own_session by simp
  next
    case False
    then show ?thesis using assms dispatch_other_session by simp
  qed
qed

lemma run_keeps_sessions:
  "\<forall>u. session_ok (storage w u) \<Longrightarrow> \<forall>u. session_ok (storage (run w ms) u)"
proof (induction ms arbitrary: w)
  case Nil
  then show ?case by simp
next
  case (Cons m ms)
  from Cons.prems have "\<forall>u. session_ok (storage (dispatch w m) u)"
    by (rule dispatch_keeps_sessions)
  then show ?case using Cons.IH by simp
qed

section \<open>The check before the insert\<close>

lemma collected_passes_revalidation:
  assumes "session_ok r" and "fsm_state r = Some StudentForm_grade"
  shows "\<exists>s a. fsm_data r ''name'' = Some (PyStr s) \<and> strip s \<noteq> []
           \<and> fsm_data r ''age'' = Some (PyInt a) \<and> 1 \<le> a \<and> a \<le> 120"
  using assms
  by (auto simp: session_ok_def name_collected_def age_collected_def
      split: option.splits pyval.splits)

lemma on_grade_with_collected:
  assumes "fsm_data (storage w (msg_sender m)) ''name'' = Some (PyStr s)" and "strip s \<noteq> []"
    and "fsm_data (storage w (msg_sender m)) ''age'' = Some (PyInt a)" and "1 \<le> a" and "a \<le> 120"
  shows "outbox (on_grade w m) = outbox w @ [(msg_sender m, Grade_empty)]
       \<or> outbox (on_grade w m) = outbox w @ [(msg_sender m, Db_error)]
       \<or> (\<exists>rowid. outbox (on_grade w m) =
             outbox w @ [(msg_sender m, Saved rowid (strip s) a (strip (text_or_empty m)))])"
    and "escaped (on_grade w m) = escaped w"
  using assms
  by (auto simp: on_grade_def step_defs ctx_defs add_student_def Let_def)

lemma dispatch_never_data_invalid:
  assumes "session_ok (storage w (msg_sender m))"
  shows "(v, Data_invalid) \<in> set (outbox (dispatch w m)) \<longrightarrow> (v, Data_invalid) \<in> set (outbox w)"
    and "set (escaped (dispatch w m)) \<subseteq> set (escaped w) \<union> {Sqlite_Error}"
proof -
  have "((v, Data_invalid) \<in> set (outbox (dispatch w m)) \<longrightarrow> (v, Data_invalid) \<in> set (outbox w))
      \<and> set (escaped (dispatch w m)) \<subseteq> set (escaped w) \<union> {Sqlite_Error}"
  proof (cases rule: session_cases [where m = m and w = w])
    case c_start
    then show ?thesis by (auto simp: dispatch_def on_start_def step_defs)
  next
    case c_help
    then show ?thesis by (auto simp: dispatch_def on_help_def step_defs)
  next
    case c_cancel
    then show ?thesis by (auto simp: dispatch_def on_cancel_def step_defs)
  next
    case c_name
    then show ?thesis
      by (auto simp: dispatch_def plain_message_def on_name_def step_defs Let_def)
  next
    case c_age
    then show ?thesis
      by (auto simp: dispatch_def plain_message_def on_age_def step_defs split: option.splits)
  next
    case c_grade
    have d: "dispatch w m = on_grade w m"
      using c_grade by (simp add: dispatch_def plain_message_def)
    from collected_passes_revalidation [OF assms c_grade(2)]
    obtain s a where c: "fsm_data (storage w (msg_sender m)) ''name'' = Some (PyStr s)"
      "strip s \<noteq> []" "fsm_data (storage w (msg_sender m)) ''age'' = Some (PyInt a)"
      "1 \<le> a" "a \<le> 120" by blast
    from on_grade_with_collected [OF c] show ?thesis unfolding d by auto
  next
    case c_idle
    then show ?thesis
      by (auto simp: dispatch_def plain_message_def on_students_def on_export_csv_def step_defs
          list_students_def split: sum.splits if_splits)
  qed
  then show "(v, Data_invalid) \<in> set (outbox (dispatch w m)) \<longrightarrow> (v, Data_invalid) \<in> set (outbox w)"
    and "set (escaped (dispatch w m)) \<subseteq> set (escaped w) \<union> {Sqlite_Error}" by blast+
qed

lemma run_never_data_invalid:
  assumes "\<forall>u. session_ok (storage w u)"
  shows "((v, Data_invalid) \<in> set (outbox (run w ms)) \<longrightarrow> (v, Data_invalid) \<in> set (outbox w))
       \<and> set (escaped (run w ms)) \<subseteq> set (escaped w) \<union> {Sqlite_Error}"
  using assms
proof (induction ms arbitrary: w)
  case Nil
  then show ?case by auto
next
  case (Cons m ms)
  from Cons.prems have ok: "\<forall>u. session_ok (storage (dispatch w m) u)"
    by (rule dispatch_keeps_sessions)
  from Cons.prems have s: "session_ok (storage w (msg_sender m))" by simp
  from Cons.IH [OF ok] dispatch_never_data_invalid(1) [OF s, of v]
    dispatch_never_data_invalid(2) [OF s]
  show ?case by auto
qed

text \<open>
  C10: start the bot with no session at all, nothing sent and nothing logged, and let
  any messages of any users come in. Whenever a user is then in the state that waits
  for the grade, the session holds a name that is a string and is not empty after
  stripping, and an age that is an integer: the check of lines 159-162 passes. So the
  reply "data invalid, start over" is never sent, and no \<^verbatim>\<open>AttributeError\<close> (nor any
  exception but a \<^verbatim>\<open>sqlite3.Error\<close>) ever leaves a handler.
\<close>

theorem revalidation_at_last_step_always_passes:
  assumes "storage w0 = (\<lambda>u. no_session)" and "outbox w0 = []" and "escaped w0 = []"
  shows "(fsm_state (storage (run w0 ms) u) = Some StudentForm_grade \<longrightarrow>
            (\<exists>s a. fsm_data (storage (run w0 ms) u) ''name'' = Some (PyStr s) \<and> strip s \<noteq> []
                   \<and> fsm_data (storage (run w0 ms) u) ''age'' = Some (PyInt a)))
       \<and> (v, Data_invalid) \<notin> set (outbox (run w0 ms))
       \<and> Attribute_Error \<notin> set (escaped (run w0 ms))
       \<and> Overflow_Error \<notin> set (escaped (run w0 ms))"
proof -
  have init: "\<forall>u. session_ok (storage w0 u)"
    by (simp add: assms(1) session_ok_def no_session_def)
  then have ok: "session_ok (storage (run w0 ms) u)" using run_keeps_sessions by blast
  have a: "fsm_state (storage (run w0 ms) u) = Some StudentForm_grade \<longrightarrow>
            (\<exists>s a. fsm_data (storage (run w0 ms) u) ''name'' = Some (PyStr s) \<and> strip s \<noteq> []
                   \<and> fsm_data (storage (run w0 ms) u) ''age'' = Some (PyInt a))"
    using collected_passes_revalidation [OF ok] by blast
  from run_never_data_invalid [OF init, of v ms] assms(2,3)
  have b: "(v, Data_invalid) \<notin> set (outbox (run w0 ms))"
    and c: "set (escaped (run w0 ms)) \<subseteq> {Sqlite_Error}" by auto
  from c have "Attribute_Error \<notin> set (escaped (run w0 ms))"
    and "Overflow_Error \<notin> set (escaped (run w0 ms))" by auto
  with a b show ?thesis by blast
qed

theorem revalidation_at_last_step_always_passes_witness:
  "storage fresh_world = (\<lambda>u. no_session) \<and> outbox fresh_world = [] \<and> escaped fresh_world = []
   \<and> fsm_state (storage (run fresh_world [start_msg 1, text_msg 1 ''Ann'', text_msg 1 ''10'']) 1)
       = Some StudentForm_grade
   \<and> (\<exists>s a. fsm_data (storage (run fresh_world [start_msg 1, text_msg 1 ''Ann'', text_msg 1 ''10'']) 1)
               ''name'' = Some (PyStr s) \<and> strip s \<noteq> []
          \<and> fsm_data (storage (run fresh_world [start_msg 1, text_msg 1 ''Ann'', text_msg 1 ''10'']) 1)
               ''age'' = Some (PyInt a))
   \<and> (1, Data_invalid) \<notin> set (outbox (run fresh_world
         [start_msg 1, text_msg 1 ''Ann'', text_msg 1 ''10'', text_msg 1 ''4B'']))"
proof -
  let ?ms = "[start_msg 1, text_msg 1 ''Ann'', text_msg 1 ''10'']"
  have i: "storage fresh_world = (\<lambda>u. no_session)" "outbox fresh_world = []"
    "escaped fresh_world = []"
    by (simp_all add: fresh_world_def)
  have ann: "strip ''Ann'' = ''Ann''" by (simp add: strip_eval)
  have ten: "parse_age maxd ''10'' = Some 10" for maxd by (simp add: parse_age_eval)
  have st: "fsm_state (storage (run fresh_world ?ms) 1) = Some StudentForm_grade"
    by (simp add: dispatch_def message_defs handler_defs step_defs ctx_defs fresh_world_def
        ann ten no_session_def)
  from revalidation_at_last_step_always_passes [OF i, of ?ms 1] st
  have ex: "\<exists>s a. fsm_data (storage (run fresh_world ?ms) 1) ''name'' = Some (PyStr s) \<and> strip s \<noteq> []
          \<and> fsm_data (storage (run fresh_world ?ms) 1) ''age'' = Some (PyInt a)"
    by blast
  from revalidation_at_last_step_always_passes
    [OF i, of "[start_msg 1, text_msg 1 ''Ann'', text_msg 1 ''10'', text_msg 1 ''4B'']" 1 1]
  have nd: "(1, Data_invalid) \<notin> set (outbox (run fresh_world
         [start_msg 1, text_msg 1 ''Ann'', text_msg 1 ''10'', text_msg 1 ''4B'']))" by blast
  from i st ex nd show ?thesis by blast
qed

section \<open>What a step depends on\<close>

lemma on_grade_effect:
  "on_grade w m = w\<lparr>outbox := outbox (on_grade w m), escaped := escaped (on_grade w m),
                   storage := storage (on_grade w m), db := db (on_grade w m)\<rparr>"
  by (auto simp: on_grade_def step_defs Let_def split: option.splits pyval.splits sum.splits)

lemma on_grade_limits:
  "int_max_str_digits (on_grade w m) = int_max_str_digits w"
  "db_up (db (on_grade w m)) = db_up (db w)"
  by (auto simp: on_grade_def step_defs add_student_def Let_def
      split: option.splits pyval.splits sum.splits)

lemma dispatch_keeps_limits:
  "int_max_str_digits (dispatch w m) = int_max_str_digits w \<and> db_up (db (dispatch w m)) = db_up (db w)"
proof (cases rule: session_cases [where m = m and w = w])
  case c_start
  then show ?thesis by (simp add: dispatch_def on_start_def step_defs)
next
  case c_help
  then show ?thesis by (simp add: dispatch_def on_help_def step_defs)
next
  case c_cancel
  then show ?thesis by (simp add: dispatch_def on_cancel_def step_defs)
next
  case c_name
  then show ?thesis by (simp add: dispatch_def plain_message_def on_name_def step_defs Let_def)
next
  case c_age
  then show ?thesis
    by (simp add: dispatch_def plain_message_def on_age_def step_defs split: option.splits)
next
  case c_grade
  then show ?thesis by (simp add: dispatch_def plain_message_def on_grade_limits)
next
  case c_idle
  then show ?thesis
    by (auto simp: dispatch_def plain_message_def on_students_def on_export_csv_def step_defs
        split: sum.splits)
qed


lemma on_grade_session:
  "storage (on_grade w m) (msg_sender m) =
     (if strip (text_or_empty m) = []
         \<or> (\<exists>i. fsm_data (storage w (msg_sender m)) ''name'' = Some (PyInt i))
      then storage w (msg_sender m) else no_session)"
  by (auto simp: on_grade_def step_defs ctx_defs Let_def split: option.splits pyval.splits sum.splits)

lemma on_grade_records:
  "records (on_grade w m) =
     records w @
     (if strip (text_or_empty m) = [] then []
      else case fsm_data (storage w (msg_sender m)) ''name'' of
             Some (PyStr s) \<Rightarrow>
               (if strip s = [] then []
                else case fsm_data (storage w (msg_sender m)) ''age'' of
                       Some (PyInt a) \<Rightarrow>
                         (if db_up (db w) \<and> - (2 ^ 63) \<le> a \<and> a < 2 ^ 63
                          then [(strip s, a, strip (text_or_empty m))] else [])
                     | _ \<Rightarrow> [])
           | _ \<Rightarrow> [])"
  by (auto simp: on_grade_def step_defs ctx_defs records_def add_student_def strip_idem Let_def
      split: option.splits pyval.splits)

lemma dispatch_session_local:
  assumes s: "storage w1 (msg_sender m) = storage w2 (msg_sender m)"
    and l: "int_max_str_digits w1 = int_max_str_digits w2"
  shows "storage (dispatch w1 m) (msg_sender m) = storage (dispatch w2 m) (msg_sender m)"
proof (cases rule: session_cases [where m = m and w = w1])
  case c_start
  then show ?thesis by (simp add: dispatch_def on_start_def step_defs ctx_defs)
next
  case c_help
  then show ?thesis using s by (simp add: dispatch_def on_help_def step_defs)
next
  case c_cancel
  then show ?thesis by (simp add: dispatch_def on_cancel_def step_defs ctx_defs)
next
  case c_name
  then have "dispatch w1 m = on_name w1 m" "dispatch w2 m = on_name w2 m"
    using s by (simp_all add: dispatch_def plain_message_def)
  then show ?thesis using s by (simp add: on_name_def step_defs ctx_defs Let_def)
next
  case c_age
  then have "dispatch w1 m = on_age w1 m" "dispatch w2 m = on_age w2 m"
    using s by (simp_all add: dispatch_def plain_message_def)
  then show ?thesis using s l by (simp add: on_age_def step_defs ctx_defs split: option.splits)
next
  case c_grade
  then have "dispatch w1 m = on_grade w1 m" "dispatch w2 m = on_grade w2 m"
    using s by (simp_all add: dispatch_def plain_message_def)
  then show ?thesis using s by (simp only: on_grade_session)
next
  case c_idle
  have "storage (dispatch w m) = storage w"
    if "plain_message m" "fsm_state (storage w (msg_sender m)) = None" for w
    using that
    by (auto simp: dispatch_def plain_message_def on_students_def on_export_csv_def step_defs
        split: sum.splits)
  from this [of w1] this [of w2] c_idle s show ?thesis by simp
qed

lemma dispatch_records_local:
  assumes s: "storage w1 (msg_sender m) = storage w2 (msg_sender m)"
    and u: "db_up (db w1) = db_up (db w2)"
  shows "\<exists>new. records (dispatch w1 m) = records w1 @ new
             \<and> records (dispatch w2 m) = records w2 @ new"
proof (cases rule: session_cases [where m = m and w = w1])
  case c_start
  then show ?thesis by (simp add: dispatch_def on_start_def step_defs records_def)
next
  case c_help
  then show ?thesis by (simp add: dispatch_def on_help_def step_defs records_def)
next
  case c_cancel
  then show ?thesis by (simp add: dispatch_def on_cancel_def step_defs records_def)
next
  case c_name
  then show ?thesis using s
    by (simp add: dispatch_def plain_message_def on_name_def step_defs records_def Let_def)
next
  case c_age
  then show ?thesis using s
    by (simp add: dispatch_def plain_message_def on_age_def step_defs records_def
        split: option.splits)
next
  case c_grade
  then have "dispatch w1 m = on_grade w1 m" "dispatch w2 m = on_grade w2 m"
    using s by (simp_all add: dispatch_def plain_message_def)
  then show ?thesis using s u by (simp only: on_grade_records) blast
next
  case c_idle
  have "records (dispatch w m) = records w"
    if "plain_message m" "fsm_state (storage w (msg_sender m)) = None" for w
    using that
    by (auto simp: dispatch_def plain_message_def on_students_def on_export_csv_def step_defs
        records_def split: sum.splits)
  from this [of w1] this [of w2] c_idle s show ?thesis by simp
qed

section \<open>Runs of several users\<close>

lemma run_keeps_limits:
  "int_max_str_digits (run w ms) = int_max_str_digits w \<and> db_up (db (run w ms)) = db_up (db w)"
  by (induction ms arbitrary: w) (simp_all add: dispatch_keeps_limits)

lemma run_session_local:
  assumes "storage w1 u = storage w2 u" and "int_max_str_digits w1 = int_max_str_digits w2"
  shows "storage (run w1 ms) u = storage (run w2 (filter (\<lambda>m. msg_sender m = u) ms)) u"
  using assms
proof (induction ms arbitrary: w1 w2)
  case Nil
  then show ?case by simp
next
  case (Cons m ms)
  show ?case
  proof (cases "msg_sender m = u")
    case True
    have "storage (dispatch w1 m) u = storage (dispatch w2 m) u"
      using dispatch_session_local [of w1 m w2] Cons.prems True by simp
    moreover have "int_max_str_digits (dispatch w1 m) = int_max_str_digits (dispatch w2 m)"
      using Cons.prems by (simp add: dispatch_keeps_limits)
    ultimately show ?thesis using Cons.IH [of "dispatch w1 m" "dispatch w2 m"] True by simp
  next
    case False
    then have "storage (dispatch w1 m) u = storage w2 u"
      using dispatch_other_session [of u m w1] Cons.prems by simp
    moreover have "int_max_str_digits (dispatch w1 m) = int_max_str_digits w2"
      using Cons.prems by (simp add: dispatch_keeps_limits)
    ultimately show ?thesis using Cons.IH [of "dispatch w1 m" w2] False by simp
  qed
qed

lemma run_records_two_users:
  assumes "u \<noteq> v" and "\<forall>m \<in> set ms. msg_sender m = u \<or> msg_sender m = v"
    and "storage w u = storage wu u" and "storage w v = storage wv v"
    and "db_up (db w) = db_up (db wu)" and "db_up (db w) = db_up (db wv)"
    and "int_max_str_digits w = int_max_str_digits wu"
    and "int_max_str_digits w = int_max_str_digits wv"
  shows "mset (records (run w ms)) + mset (records wu) + mset (records wv) =
         mset (records (run wu (filter (\<lambda>m. msg_sender m = u) ms)))
         + mset (records (run wv (filter (\<lambda>m. msg_sender m = v) ms))) + mset (records w)"
  using assms(2-)
proof (induction ms arbitrary: w wu wv)
  case Nil
  then show ?case by simp
next
  case (Cons m ms)
  from Cons.prems(1) have rest: "\<forall>m \<in> set ms. msg_sender m = u \<or> msg_sender m = v" by simp
  from Cons.prems(1) consider (from_u) "msg_sender m = u" | (from_v) "msg_sender m = v" by auto
  then show ?case
  proof cases
    case from_u
    with assms(1) have nv: "msg_sender m \<noteq> v" by simp
    obtain new where n: "records (dispatch w m) = records w @ new"
      "records (dispatch wu m) = records wu @ new"
      using dispatch_records_local [of w m wu] Cons.prems from_u by auto
    have 1: "storage (dispatch w m) u = storage (dispatch wu m) u"
      using dispatch_session_local [of w m wu] Cons.prems from_u by simp
    have 2: "storage (dispatch w m) v = storage wv v"
      using dispatch_other_session [of v m w] nv Cons.prems by simp
    have ih: "mset (records (run (dispatch w m) ms)) + mset (records (dispatch wu m))
          + mset (records wv) =
        mset (records (run (dispatch wu m) (filter (\<lambda>m. msg_sender m = u) ms)))
        + mset (records (run wv (filter (\<lambda>m. msg_sender m = v) ms)))
        + mset (records (dispatch w m))"
      using Cons.IH [OF rest 1 2] Cons.prems by (simp add: dispatch_keeps_limits)
    show ?thesis using ih from_u nv unfolding n by (simp add: ac_simps)
  next
    case from_v
    with assms(1) have nu: "msg_sender m \<noteq> u" by simp
    obtain new where n: "records (dispatch w m) = records w @ new"
      "records (dispatch wv m) = records wv @ new"
      using dispatch_records_local [of w m wv] Cons.prems from_v by auto
    have 1: "storage (dispatch w m) v = storage (dispatch wv m) v"
      using dispatch_session_local [of w m wv] Cons.prems from_v by simp
    have 2: "storage (dispatch w m) u = storage wu u"
      using dispatch_other_session [of u m w] nu Cons.prems by simp
    have ih: "mset (records (run (dispatch w m) ms)) + mset (records wu)
          + mset (records (dispatch wv m)) =
        mset (records (run wu (filter (\<lambda>m. msg_sender m = u) ms)))
        + mset (records (run (dispatch wv m) (filter (\<lambda>m. msg_sender m = v) ms)))
        + mset (records (dispatch w m))"
      using Cons.IH [OF rest 2 1] Cons.prems by (simp add: dispatch_keeps_limits)
    show ?thesis using ih from_v nu unfolding n by (simp add: ac_simps)
  qed
qed

section \<open>A step does not read another session\<close>

lemma on_grade_ignores_other_session:
  assumes "msg_sender m \<noteq> v"
  shows "on_grade (w\<lparr>storage := (storage w)(v := r)\<rparr>) m =
         (on_grade w m)\<lparr>storage := (storage (on_grade w m))(v := r)\<rparr>"
  using assms
  by (auto simp: on_grade_def step_defs ctx_defs Let_def fun_upd_twist
      split: option.splits pyval.splits sum.splits)

lemma dispatch_ignores_other_session:
  assumes nv: "msg_sender m \<noteq> v"
  shows "dispatch (w\<lparr>storage := (storage w)(v := r)\<rparr>) m =
         (dispatch w m)\<lparr>storage := (storage (dispatch w m))(v := r)\<rparr>"
proof (cases rule: session_cases [where m = m and w = w])
  case c_start
  then show ?thesis using nv
    by (simp add: dispatch_def on_start_def step_defs ctx_defs fun_upd_twist)
next
  case c_help
  then show ?thesis by (simp add: dispatch_def on_help_def step_defs)
next
  case c_cancel
  then show ?thesis using nv
    by (simp add: dispatch_def on_cancel_def step_defs ctx_defs fun_upd_twist)
next
  case c_name
  then show ?thesis using nv
    by (simp add: dispatch_def plain_message_def on_name_def step_defs ctx_defs fun_upd_twist Let_def)
next
  case c_age
  then show ?thesis using nv
    by (simp add: dispatch_def plain_message_def on_age_def step_defs ctx_defs fun_upd_twist
        split: option.splits)
next
  case c_grade
  then show ?thesis using nv
    by (simp add: dispatch_def plain_message_def on_grade_ignores_other_session)
next
  case c_idle
  then show ?thesis using nv
    by (auto simp: dispatch_def plain_message_def on_students_def on_export_csv_def step_defs
        split: sum.splits)
qed

section \<open>Two users at once\<close>

text \<open>
  C9: let \<open>u\<close> and \<open>v\<close> be two users. Handling a message of \<open>u\<close> leaves the session of
  \<open>v\<close> as it is and does not read it: with any other session put in the place of \<open>v\<close>'s,
  the step does the same and leaves that other session there. After any run of messages
  of any users, the session of \<open>u\<close> is the one the messages of \<open>u\<close> alone would have
  led to. When the messages of a run are those of \<open>u\<close> and \<open>v\<close>, in any interleaving, the
  records the run adds to the table are those the messages of \<open>u\<close> alone add together
  with those the messages of \<open>v\<close> alone add. A handler is taken as one step here: the
  messages interleave, not the statements within a handler.
\<close>

theorem sessions_are_isolated:
  assumes "u \<noteq> v"
  shows "(msg_sender m = u \<longrightarrow>
            storage (dispatch w m) v = storage w v
            \<and> dispatch (w\<lparr>storage := (storage w)(v := r)\<rparr>) m =
                (dispatch w m)\<lparr>storage := (storage (dispatch w m))(v := r)\<rparr>)
       \<and> storage (run w ms) u = storage (run w (filter (\<lambda>m. msg_sender m = u) ms)) u
       \<and> ((\<forall>m \<in> set ms. msg_sender m = u \<or> msg_sender m = v) \<longrightarrow>
            mset (records (run w ms)) + mset (records w) =
            mset (records (run w (filter (\<lambda>m. msg_sender m = u) ms)))
            + mset (records (run w (filter (\<lambda>m. msg_sender m = v) ms))))"
proof -
  have a: "msg_sender m = u \<longrightarrow>
            storage (dispatch w m) v = storage w v
            \<and> dispatch (w\<lparr>storage := (storage w)(v := r)\<rparr>) m =
                (dispatch w m)\<lparr>storage := (storage (dispatch w m))(v := r)\<rparr>"
    using assms dispatch_other_session [of v m w] dispatch_ignores_other_session [of m v w r]
    by auto
  have b: "storage (run w ms) u = storage (run w (filter (\<lambda>m. msg_sender m = u) ms)) u"
    by (rule run_session_local) simp_all
  have c: "mset (records (run w ms)) + mset (records w) =
            mset (records (run w (filter (\<lambda>m. msg_sender m = u) ms)))
            + mset (records (run w (filter (\<lambda>m. msg_sender m = v) ms)))"
    if all: "\<forall>m \<in> set ms. msg_sender m = u \<or> msg_sender m = v"
  proof -
    have "mset (records (run w ms)) + mset (records w) + mset (records w) =
         mset (records (run w (filter (\<lambda>m. msg_sender m = u) ms)))
         + mset (records (run w (filter (\<lambda>m. msg_sender m = v) ms))) + mset (records w)"
      using run_records_two_users [OF assms all, of w w w] by simp
    then show ?thesis by simp
  qed
  from a b c show ?thesis by blast
qed

theorem sessions_are_isolated_witness:
  "(1::int) \<noteq> 2
   \<and> storage (dispatch (run fresh_world [start_msg 2, text_msg 2 ''Bob'']) (text_msg 1 ''Ann'')) 2
       = storage (run fresh_world [start_msg 2, text_msg 2 ''Bob'']) 2
   \<and> storage (run fresh_world
        [start_msg 1, start_msg 2, text_msg 1 ''Ann'', text_msg 2 ''Bob'', text_msg 2 ''11'',
         text_msg 1 ''10'', text_msg 2 ''5A'']) 1
       = storage (run fresh_world [start_msg 1, text_msg 1 ''Ann'', text_msg 1 ''10'']) 1
   \<and> mset (records (run fresh_world
        [start_msg 1, start_msg 2, text_msg 1 ''Ann'', text_msg 2 ''Bob'', text_msg 2 ''11'',
         text_msg 1 ''10'', text_msg 2 ''5A'', text_msg 1 ''4B''])) + mset (records fresh_world)
       = mset (records (run fresh_world
            [start_msg 1, text_msg 1 ''Ann'', text_msg 1 ''10'', text_msg 1 ''4B'']))
         + mset (records (run fresh_world
            [start_msg 2, text_msg 2 ''Bob'', text_msg 2 ''11'', text_msg 2 ''5A'']))
   \<and> records (run fresh_world
        [start_msg 1, start_msg 2, text_msg 1 ''Ann'', text_msg 2 ''Bob'', text_msg 2 ''11'',
         text_msg 1 ''10'', text_msg 2 ''5A'', text_msg 1 ''4B'']) =
       [(''Bob'', 11, ''5A''), (''Ann'', 10, ''4B'')]"
proof -
  let ?ms7 = "[start_msg 1, start_msg 2, text_msg 1 ''Ann'', text_msg 2 ''Bob'', text_msg 2 ''11'',
         text_msg 1 ''10'', text_msg 2 ''5A'']"
  let ?ms8 = "[start_msg 1, start_msg 2, text_msg 1 ''Ann'', text_msg 2 ''Bob'', text_msg 2 ''11'',
         text_msg 1 ''10'', text_msg 2 ''5A'', text_msg 1 ''4B'']"
  have ne: "(1::int) \<noteq> 2" by simp
  have s1: "msg_sender (text_msg 1 ''Ann'') = 1" by (simp add: text_msg_def)
  have A: "storage (dispatch (run fresh_world [start_msg 2, text_msg 2 ''Bob'']) (text_msg 1 ''Ann'')) 2
       = storage (run fresh_world [start_msg 2, text_msg 2 ''Bob'']) 2"
    using sessions_are_isolated [OF ne, where m = "text_msg 1 ''Ann''"
        and w = "run fresh_world [start_msg 2, text_msg 2 ''Bob'']"] s1
    by blast
  have f7: "filter (\<lambda>m. msg_sender m = 1) ?ms7 = [start_msg 1, text_msg 1 ''Ann'', text_msg 1 ''10'']"
    by (simp add: message_defs)
  have B: "storage (run fresh_world ?ms7) 1
      = storage (run fresh_world [start_msg 1, text_msg 1 ''Ann'', text_msg 1 ''10'']) 1"
    using sessions_are_isolated [OF ne, where w = fresh_world and ms = ?ms7]
    unfolding f7 by blast
  have all: "\<forall>m \<in> set ?ms8. msg_sender m = 1 \<or> msg_sender m = 2" by (simp add: message_defs)
  have f1: "filter (\<lambda>m. msg_sender m = 1) ?ms8 =
      [start_msg 1, text_msg 1 ''Ann'', text_msg 1 ''10'', text_msg 1 ''4B'']"
    by (simp add: message_defs)
  have f2: "filter (\<lambda>m. msg_sender m = 2) ?ms8 =
      [start_msg 2, text_msg 2 ''Bob'', text_msg 2 ''11'', text_msg 2 ''5A'']"
    by (simp add: message_defs)
  have C: "mset (records (run fresh_world ?ms8)) + mset (records fresh_world)
       = mset (records (run fresh_world
            [start_msg 1, text_msg 1 ''Ann'', text_msg 1 ''10'', text_msg 1 ''4B'']))
         + mset (records (run fresh_world
            [start_msg 2, text_msg 2 ''Bob'', text_msg 2 ''11'', text_msg 2 ''5A'']))"
    using sessions_are_isolated [OF ne, where w = fresh_world and ms = ?ms8] all
    unfolding f1 f2 by blast
  have s: "strip ''Ann'' = ''Ann''" "strip ''Bob'' = ''Bob''" "strip ''4B'' = ''4B''"
    "strip ''5A'' = ''5A''"
    by (simp_all add: strip_eval)
  have p: "parse_age maxd ''10'' = Some 10" "parse_age maxd ''11'' = Some 11" for maxd
    by (simp_all add: parse_age_eval)
  have D: "records (run fresh_world ?ms8) = [(''Bob'', 11, ''5A''), (''Ann'', 10, ''4B'')]"
    by (simp add: dispatch_def message_defs handler_defs step_defs ctx_defs fresh_world_def
        s p add_student_def next_rowid_def no_session_def records_def Let_def)
  from ne A B C D show ?thesis by blast
qed

end
